theory Spec2Isabelle
  imports Main "HOL-Library.AList"
begin

section \<open>Values, exceptions, callbacks and the loop\<close>

text \<open>
  Futures and tasks are heap objects, named by their address; two references are the
  same object (Python's \<open>is\<close>) when the addresses are equal. Result values and the
  exception instances made by user code carry the identity of their object, so that
  equality in the model is identity in the program.
\<close>

type_synonym addr = nat

datatype val = NoneVal | Obj nat

datatype exc =
    Cancelled nat "string option" bool
  | UserError nat bool
  | FutureFinishedError
  | FutureNotReady
  | SelfCancelForbidden
  | RuntimeError
  | TypeError
  | ValueError
  | KeyError
  | AssertionError
  | AttributeError
  | MultiError string "exc list"

fun is_Cancelled :: "exc \<Rightarrow> bool" where
  "is_Cancelled (Cancelled i m b) = True"
| "is_Cancelled e = False"

text \<open>
  \<open>bool(exc)\<close>, which \<open>if exc\<close> tests. An instance is true unless its class defines
  \<open>__bool__\<close> or \<open>__len__\<close>; a user's exception class and a user's subclass of
  \<open>Cancelled\<close> may, so their instances carry their truth value (the last argument). The
  built-in classes define neither; the classes of \<open>aio.exceptions\<close> are not among the
  sources and are taken to define neither.
\<close>

fun truth :: "exc \<Rightarrow> bool" where
  "truth (Cancelled i m b) = b"
| "truth (UserError i b) = b"
| "truth e = True"

fun is_true :: "exc option \<Rightarrow> bool" where
  "is_true None = False"
| "is_true (Some e) = truth e"

text \<open>The argument of the cancellation API: \<open>str | Cancelled | None\<close>.\<close>

datatype cancel_arg = NoArg | Msg string | Instance nat "string option" bool

text \<open>
  The callables that reach the loop: a user callback (opaque to the library, known by
  its identity; like the \<open>Mock\<close> callbacks of the tests, calling it changes nothing
  in the futures), the bound methods \<open>task._execute_coroutine_step\<close> and
  \<open>task._schedule_execution\<close>, and the closure \<open>future_done_cb\<close> made by
  \<open>shield\<close> (over the shielded future and the future of its promise).
\<close>

datatype callback =
    UserCallback nat
  | ExecuteCoroutineStep addr
  | ScheduleExecution addr
  | FutureDoneCb addr addr

datatype arg = ArgNone | ArgFuture addr | ArgExc exc

text \<open>
  The loop is the one of \<open>tests/test_future.py\<close>: \<open>call_soon\<close> appends
  \<open>(target, args)\<close> to the list \<open>loop_last_enqueued\<close>; the handle it returns
  cancels by removing the first equal entry of that list (and nothing when there is
  none); its \<open>executed\<close> attribute is the constant \<open>False\<close>.

  A loop over a Python \<open>set\<close> takes the elements in the order of the set's hash table,
  which the hashes of the elements and the history of the set decide. The heap holds
  that order as \<open>set_order\<close>: for a set with the given elements (in the order they were
  added), the position of each; \<open>iteration\<close> is the order of the loop. A \<open>dict\<close> is
  looped over in insertion order and does not read it.
\<close>

type_synonym handle = "callback \<times> arg list"

record 'o heap =
  objs :: "addr \<Rightarrow> 'o"
  ready :: "handle list"
  next_id :: nat
  set_order :: "callback list \<Rightarrow> callback \<Rightarrow> nat"

definition iteration :: "'o heap \<Rightarrow> callback list \<Rightarrow> callback list" where
  "iteration h cbs = sort_key (set_order h cbs) cbs"

definition call_soon :: "'o heap \<Rightarrow> callback \<Rightarrow> arg list \<Rightarrow> handle \<times> 'o heap" where
  "call_soon h target args = ((target, args), h\<lparr>ready := ready h @ [(target, args)]\<rparr>)"

definition handle_cancel :: "'o heap \<Rightarrow> handle \<Rightarrow> 'o heap" where
  "handle_cancel h hnd = h\<lparr>ready := remove1 hnd (ready h)\<rparr>"

definition handle_executed :: "handle \<Rightarrow> bool" where
  "handle_executed hnd = False"

text \<open>
  Modelled from the spec: \<open>aio.future.utils.coerce_cancel_arg\<close> is not among the
  sources. "\<open>cancel\<close> coerces its argument: none \<rightarrow> fresh Cancelled; string \<rightarrow>
  Cancelled(string); Cancelled instance \<rightarrow> used as-is." A fresh instance takes the
  next unused identity.
\<close>

definition coerce_cancel_arg :: "'o heap \<Rightarrow> cancel_arg \<Rightarrow> exc \<times> 'o heap" where
  "coerce_cancel_arg h a =
     (case a of
        NoArg \<Rightarrow> (Cancelled (next_id h) None True, h\<lparr>next_id := Suc (next_id h)\<rparr>)
      | Msg s \<Rightarrow> (Cancelled (next_id h) (Some s) True, h\<lparr>next_id := Suc (next_id h)\<rparr>)
      | Instance i m b \<Rightarrow> (Cancelled i m b, h))"

subsection \<open>Coroutines\<close>

text \<open>
  A native coroutine whose suspension points are \<open>await fut\<close>: it returns, raises,
  or awaits a future and goes on with what the \<open>await\<close> expression gave (a value, or
  an exception raised at the \<open>await\<close>, which the body may catch). The coroutine object
  is the code still to run with the state \<open>inspect.getcoroutinestate\<close> reports.
\<close>

datatype coro = Return val | Raise exc | Await addr "exc + val \<Rightarrow> coro"

datatype coro_state = CORO_CREATED | CORO_RUNNING | CORO_SUSPENDED | CORO_CLOSED

datatype coroutine = Coroutine (getcoroutinestate: coro_state) (frame: coro)

text \<open>What \<open>send\<close> or \<open>throw\<close> gives: a yielded future, \<open>StopIteration(value)\<close>, or an exception.\<close>

datatype sent = Yielded addr | StopIteration val | Raised exc

text \<open>
  Modelled from the spec: \<open>aio.utils.is_coro_running\<close> is not among the sources.
  "A Task never completes while its coroutine is mid-frame -- the coroutine must have
  returned normally or propagated an exception" (or not have started).
\<close>

definition is_coro_running :: "coroutine \<Rightarrow> bool" where
  "is_coro_running c \<longleftrightarrow>
     getcoroutinestate c = CORO_RUNNING \<or> getcoroutinestate c = CORO_SUSPENDED"

section \<open>\<open>aio/future/pure.py\<close>\<close>

subsection \<open>Future\<close>

text \<open>
  The state classes. \<open>_CreatedState\<close>, \<open>_ScheduledState\<close> and \<open>_RunningState\<close>
  derive from \<open>_PendingState\<close>. A dict keyed by callbacks is the list of its keys, or
  of its items, in insertion order.
\<close>

datatype state =
    PendingState "callback list"
  | SuccessState val "(callback \<times> handle) list"
  | FailedState exc bool "(callback \<times> handle) list"
  | CreatedState "callback list" coroutine
  | ScheduledState "callback list" coroutine handle
  | RunningState "callback list" coroutine addr

record future =
  is_task :: bool
  state :: state
  loop :: nat

type_synonym pheap = "future heap"

fun is_PendingState :: "state \<Rightarrow> bool" where
  "is_PendingState (SuccessState v s) = False"
| "is_PendingState (FailedState e r s) = False"
| "is_PendingState st = True"

fun is_BaseTaskState :: "state \<Rightarrow> bool" where
  "is_BaseTaskState (CreatedState cbs c) = True"
| "is_BaseTaskState (ScheduledState cbs c hnd) = True"
| "is_BaseTaskState (RunningState cbs c w) = True"
| "is_BaseTaskState st = False"

fun result_callbacks :: "state \<Rightarrow> callback list" where
  "result_callbacks (PendingState cbs) = cbs"
| "result_callbacks (CreatedState cbs c) = cbs"
| "result_callbacks (ScheduledState cbs c hnd) = cbs"
| "result_callbacks (RunningState cbs c w) = cbs"
| "result_callbacks st = []"

fun scheduled_cbs :: "state \<Rightarrow> (callback \<times> handle) list" where
  "scheduled_cbs (SuccessState v s) = s"
| "scheduled_cbs (FailedState e r s) = s"
| "scheduled_cbs st = []"

fun with_result_callbacks :: "state \<Rightarrow> callback list \<Rightarrow> state" where
  "with_result_callbacks (PendingState cbs) n = PendingState n"
| "with_result_callbacks (CreatedState cbs c) n = CreatedState n c"
| "with_result_callbacks (ScheduledState cbs c hnd) n = ScheduledState n c hnd"
| "with_result_callbacks (RunningState cbs c w) n = RunningState n c w"
| "with_result_callbacks st n = st"

fun with_scheduled_cbs :: "state \<Rightarrow> (callback \<times> handle) list \<Rightarrow> state" where
  "with_scheduled_cbs (SuccessState v s) n = SuccessState v n"
| "with_scheduled_cbs (FailedState e r s) n = FailedState e r n"
| "with_scheduled_cbs st n = st"

fun state_coroutine :: "state \<Rightarrow> coroutine option" where
  "state_coroutine (CreatedState cbs c) = Some c"
| "state_coroutine (ScheduledState cbs c hnd) = Some c"
| "state_coroutine (RunningState cbs c w) = Some c"
| "state_coroutine st = None"

definition set_state :: "pheap \<Rightarrow> addr \<Rightarrow> state \<Rightarrow> pheap" where
  "set_state h a st = h\<lparr>objs := (objs h)(a := (objs h a)\<lparr>state := st\<rparr>)\<rparr>"

definition Future_result :: "pheap \<Rightarrow> addr \<Rightarrow> (exc + val) \<times> pheap" where
  "Future_result h a =
     (case state (objs h a) of
        SuccessState v s \<Rightarrow> (Inr v, h)
      | FailedState e r s \<Rightarrow> (Inl e, set_state h a (FailedState e True s))
      | _ \<Rightarrow> (Inl FutureNotReady, h))"

definition Future_exception :: "pheap \<Rightarrow> addr \<Rightarrow> (exc + exc option) \<times> pheap" where
  "Future_exception h a =
     (case state (objs h a) of
        SuccessState v s \<Rightarrow> (Inr None, h)
      | FailedState e r s \<Rightarrow> (Inr (Some e), set_state h a (FailedState e True s))
      | _ \<Rightarrow> (Inl FutureNotReady, h))"

definition Future_add_callback :: "pheap \<Rightarrow> addr \<Rightarrow> callback \<Rightarrow> (exc + unit) \<times> pheap" where
  "Future_add_callback h a cb =
     (let st = state (objs h a) in
      if is_PendingState st
      then (Inr (),
            set_state h a (with_result_callbacks st
              (if cb \<in> set (result_callbacks st) then result_callbacks st
               else result_callbacks st @ [cb])))
      else (Inl FutureFinishedError, h))"

definition Future_remove_callback :: "pheap \<Rightarrow> addr \<Rightarrow> callback \<Rightarrow> (exc + unit) \<times> pheap" where
  "Future_remove_callback h a cb =
     (let st = state (objs h a) in
      if is_PendingState st
      then (Inr (), set_state h a (with_result_callbacks st (removeAll cb (result_callbacks st))))
      else (case map_of (scheduled_cbs st) cb of
              None \<Rightarrow> (Inr (), h)
            | Some hnd \<Rightarrow>
                (Inr (), handle_cancel
                   (set_state h a (with_scheduled_cbs st (AList.delete cb (scheduled_cbs st)))) hnd)))"

definition is_finished :: "pheap \<Rightarrow> addr \<Rightarrow> bool" where
  "is_finished h a \<longleftrightarrow> \<not> is_PendingState (state (objs h a))"

definition is_cancelled :: "pheap \<Rightarrow> addr \<Rightarrow> bool" where
  "is_cancelled h a \<longleftrightarrow>
     (case state (objs h a) of FailedState e r s \<Rightarrow> is_Cancelled e | _ \<Rightarrow> False)"

text \<open>The dict comprehension of \<open>_schedule_callbacks\<close>: one \<open>call_soon(cb, self)\<close> per callback, in order.\<close>

fun schedule_each ::
    "pheap \<Rightarrow> addr \<Rightarrow> callback list \<Rightarrow> (callback \<times> handle) list \<Rightarrow>
     (callback \<times> handle) list \<times> pheap" where
  "schedule_each h a [] m = (m, h)"
| "schedule_each h a (cb # cbs) m =
     (case call_soon h cb [ArgFuture a] of
        (hnd, h1) \<Rightarrow> schedule_each h1 a cbs (AList.update cb hnd m))"

definition Future__schedule_callbacks ::
    "pheap \<Rightarrow> addr \<Rightarrow> (exc + (callback \<times> handle) list) \<times> pheap" where
  "Future__schedule_callbacks h a =
     (if \<not> is_PendingState (state (objs h a)) then (Inl RuntimeError, h)
      else (case schedule_each h a (result_callbacks (state (objs h a))) [] of
              (m, h1) \<Rightarrow> (Inr m, h1)))"

text \<open>\<open>val = None\<close> stands for \<open>_Sentry.NOT_SET\<close>.\<close>

definition Future__set_result ::
    "pheap \<Rightarrow> addr \<Rightarrow> val option \<Rightarrow> exc option \<Rightarrow> (exc + unit) \<times> pheap" where
  "Future__set_result h a v e =
     (if v \<noteq> None \<and> e \<noteq> None then (Inl ValueError, h)
      else if \<not> is_PendingState (state (objs h a)) then (Inl FutureFinishedError, h)
      else (case Future__schedule_callbacks h a of
              (Inl err, h1) \<Rightarrow> (Inl err, h1)
            | (Inr m, h1) \<Rightarrow>
                (case v of
                   Some x \<Rightarrow> (Inr (), set_state h1 a (SuccessState x m))
                 | None \<Rightarrow>
                     (case e of
                        Some x \<Rightarrow> (Inr (), set_state h1 a (FailedState x False m))
                      | None \<Rightarrow> (Inl AssertionError, h1)))))"

subsection \<open>Task\<close>

definition Task__set_result ::
    "pheap \<Rightarrow> addr \<Rightarrow> val option \<Rightarrow> exc option \<Rightarrow> (exc + unit) \<times> pheap" where
  "Task__set_result h a v e =
     (case state_coroutine (state (objs h a)) of
        Some c \<Rightarrow> if is_coro_running c then (Inl RuntimeError, h) else Future__set_result h a v e
      | None \<Rightarrow> Future__set_result h a v e)"

text \<open>\<open>self._set_result(...)\<close>, by the class of \<open>self\<close>.\<close>

definition set_result_of :: "pheap \<Rightarrow> addr \<Rightarrow> val option \<Rightarrow> exc option \<Rightarrow> (exc + unit) \<times> pheap" where
  "set_result_of h a v e =
     (if is_task (objs h a) then Task__set_result h a v e else Future__set_result h a v e)"

definition Future__cancel :: "pheap \<Rightarrow> addr \<Rightarrow> cancel_arg \<Rightarrow> (exc + unit) \<times> pheap" where
  "Future__cancel h a x =
     (case coerce_cancel_arg h x of (e, h1) \<Rightarrow> set_result_of h1 a None (Some e))"


text \<open>
  \<open>__post_init__\<close> of \<open>_BaseTaskState\<close>: a task state is only built over a coroutine
  in the state it expects (\<open>CORO_CREATED\<close> for created and scheduled, \<open>CORO_SUSPENDED\<close>
  for running).
\<close>

definition post_init_ok :: "coro_state \<Rightarrow> coroutine \<Rightarrow> bool" where
  "post_init_ok expect_coro_state c \<longleftrightarrow> getcoroutinestate c = expect_coro_state"

text \<open>
  \<open>Task._cancel\<close> calls itself through \<open>cancel_future\<close> along the chain of awaited
  tasks. The first argument bounds the depth of that recursion; \<open>None\<close> says the bound
  was reached.
\<close>

fun Task__cancel :: "nat \<Rightarrow> pheap \<Rightarrow> addr \<Rightarrow> cancel_arg \<Rightarrow> ((exc + unit) \<times> pheap) option" where
  "Task__cancel 0 h t x = None"
| "Task__cancel (Suc n) h t x =
     (case state (objs h t) of
        SuccessState v s \<Rightarrow> Some (Inl FutureFinishedError, h)
      | FailedState e r s \<Rightarrow> Some (Inl FutureFinishedError, h)
      | ScheduledState cbs c hnd \<Rightarrow>
          if handle_executed hnd then Some (Inl AssertionError, h)
          else Some (Future__cancel (handle_cancel h hnd) t x)
      | RunningState cbs c w \<Rightarrow>
          if \<not> is_finished h w
          then (if is_task (objs h w) then Task__cancel n h w x else Some (Future__cancel h w x))
          else (case Future_remove_callback h w (ExecuteCoroutineStep t) of
                  (Inl err, h1) \<Rightarrow> Some (Inl err, h1)
                | (Inr u, h1) \<Rightarrow>
                    (case coerce_cancel_arg h1 x of
                       (e, h2) \<Rightarrow>
                         (case call_soon h2 (ExecuteCoroutineStep t) [ArgNone, ArgExc e] of
                            (hnd, h3) \<Rightarrow> Some (Inr (), h3))))
      | _ \<Rightarrow> Some (Future__cancel h t x))"

definition cancel_future :: "nat \<Rightarrow> pheap \<Rightarrow> addr \<Rightarrow> cancel_arg \<Rightarrow> ((exc + unit) \<times> pheap) option" where
  "cancel_future n h a x =
     (if is_task (objs h a) then Task__cancel n h a x else Some (Future__cancel h a x))"

definition Task_cancel :: "nat \<Rightarrow> pheap \<Rightarrow> addr \<Rightarrow> cancel_arg \<Rightarrow> ((exc + unit) \<times> pheap) option" where
  "Task_cancel n h t x =
     (let self_cancel_detected =
            (case state_coroutine (state (objs h t)) of
               Some c \<Rightarrow> getcoroutinestate c = CORO_RUNNING
             | None \<Rightarrow> False)
      in if self_cancel_detected then Some (Inl SelfCancelForbidden, h) else Task__cancel n h t x)"

definition Task__schedule_first_step :: "pheap \<Rightarrow> addr \<Rightarrow> (exc + unit) \<times> pheap" where
  "Task__schedule_first_step h t =
     (case state (objs h t) of
        CreatedState cbs c \<Rightarrow>
          (case call_soon h (ExecuteCoroutineStep t) [] of
             (hnd, h1) \<Rightarrow>
               if post_init_ok CORO_CREATED c
               then (Inr (), set_state h1 t (ScheduledState cbs c hnd))
               else (Inl RuntimeError, h1))
      | _ \<Rightarrow> (Inl RuntimeError, h))"

subsection \<open>Awaiting a future, and running a coroutine\<close>

text \<open>
  \<open>Future.__await__\<close> is a generator with one \<open>yield\<close>. \<open>Future_await\<close> is the run
  up to it: \<open>None\<close> is \<open>yield self\<close>, \<open>Some r\<close> is the outcome when it does not yield.
  \<open>Future_await_resumed\<close> is the run from the \<open>yield\<close> on.
\<close>

definition Future_await_resumed :: "pheap \<Rightarrow> addr \<Rightarrow> (exc + val) \<times> pheap" where
  "Future_await_resumed h a =
     (if is_PendingState (state (objs h a)) then (Inl RuntimeError, h) else Future_result h a)"

definition Future_await :: "pheap \<Rightarrow> addr \<Rightarrow> (exc + val) option \<times> pheap" where
  "Future_await h a =
     (if is_PendingState (state (objs h a)) then (None, h)
      else (case Future_await_resumed h a of (r, h1) \<Rightarrow> (Some r, h1)))"

text \<open>
  Running the code of a coroutine up to its next suspension: the future it suspends on
  with the code left (the \<open>await\<close> it is suspended in), or how it ended.
\<close>

datatype ran = Suspended addr coro | Ended "exc + val"

primrec run :: "coro \<Rightarrow> pheap \<Rightarrow> ran \<times> pheap" where
  "run (Return v) = (\<lambda>h. (Ended (Inr v), h))"
| "run (Raise e) = (\<lambda>h. (Ended (Inl e), h))"
| "run (Await f k) = (\<lambda>h.
     case Future_await h f of
       (None, h1) \<Rightarrow> (Suspended f (Await f k), h1)
     | (Some r, h1) \<Rightarrow> run (k r) h1)"

definition suspend_or_close :: "ran \<times> pheap \<Rightarrow> sent \<times> coroutine \<times> pheap" where
  "suspend_or_close rh =
     (case rh of
        (Suspended f c, h) \<Rightarrow> (Yielded f, Coroutine CORO_SUSPENDED c, h)
      | (Ended (Inr v), h) \<Rightarrow> (StopIteration v, Coroutine CORO_CLOSED (Return v), h)
      | (Ended (Inl e), h) \<Rightarrow> (Raised e, Coroutine CORO_CLOSED (Raise e), h))"

text \<open>
  \<open>coroutine.send(None)\<close> and \<open>coroutine.throw(exc)\<close>. A suspended coroutine is inside
  the \<open>__await__\<close> of the future it yielded; \<open>send\<close> runs that generator on, \<open>throw\<close>
  raises at its \<open>yield\<close>, and the outcome is what the \<open>await\<close> gives the body. A
  running coroutine refuses both with \<open>ValueError\<close>, a closed one with \<open>RuntimeError\<close>;
  \<open>throw\<close> on a coroutine not started closes it and raises the exception.
\<close>

definition coroutine_send :: "pheap \<Rightarrow> coroutine \<Rightarrow> sent \<times> coroutine \<times> pheap" where
  "coroutine_send h c =
     (case getcoroutinestate c of
        CORO_CREATED \<Rightarrow> suspend_or_close (run (frame c) h)
      | CORO_SUSPENDED \<Rightarrow>
          (case frame c of
             Await f k \<Rightarrow>
               (case Future_await_resumed h f of (r, h1) \<Rightarrow> suspend_or_close (run (k r) h1))
           | other \<Rightarrow> suspend_or_close (run other h))
      | CORO_RUNNING \<Rightarrow> (Raised ValueError, c, h)
      | CORO_CLOSED \<Rightarrow> (Raised RuntimeError, c, h))"

definition coroutine_throw :: "pheap \<Rightarrow> coroutine \<Rightarrow> exc \<Rightarrow> sent \<times> coroutine \<times> pheap" where
  "coroutine_throw h c e =
     (case getcoroutinestate c of
        CORO_CREATED \<Rightarrow> (Raised e, Coroutine CORO_CLOSED (Raise e), h)
      | CORO_SUSPENDED \<Rightarrow>
          (case frame c of
             Await f k \<Rightarrow> suspend_or_close (run (k (Inl e)) h)
           | other \<Rightarrow> suspend_or_close (run other h))
      | CORO_RUNNING \<Rightarrow> (Raised ValueError, c, h)
      | CORO_CLOSED \<Rightarrow> (Raised RuntimeError, c, h))"

fun with_coroutine :: "state \<Rightarrow> coroutine \<Rightarrow> state" where
  "with_coroutine (CreatedState cbs c) n = CreatedState cbs n"
| "with_coroutine (ScheduledState cbs c hnd) n = ScheduledState cbs n hnd"
| "with_coroutine (RunningState cbs c w) n = RunningState cbs n w"
| "with_coroutine st n = st"

text \<open>
  \<open>_send_to_coroutine_within_new_context\<close>. The coroutine object the state refers to
  is advanced in place. The binding of \<open>current_task_cv\<close> is set and reset within the
  call and is not read by the coroutines modelled here. An exception of the two
  assertions is an exception of the call, like one raised by the coroutine. The tests
  \<open>if inner_cancel\<close> and \<open>if not inner_cancel\<close> are of the truth value: a \<open>Cancelled\<close>
  instance that is false is treated like \<open>None\<close>, and the coroutine is resumed by \<open>send\<close>.
\<close>

definition Task__send_to_coroutine_within_new_context ::
    "pheap \<Rightarrow> addr \<Rightarrow> exc option \<Rightarrow> sent \<times> pheap" where
  "Task__send_to_coroutine_within_new_context h t inner_cancel =
     (case state (objs h t) of
        ScheduledState cbs c hnd \<Rightarrow>
          if is_true inner_cancel then (Raised AttributeError, h)
          else
            (case coroutine_send h c of
               (s, c1, h1) \<Rightarrow> (s, set_state h1 t (with_coroutine (state (objs h1 t)) c1)))
      | RunningState cbs c w \<Rightarrow>
          (case inner_cancel of
             Some e \<Rightarrow>
               if truth e then
                 if \<not> is_finished h w then (Raised AssertionError, h)
                 else (case coroutine_throw h c e of
                         (s, c1, h1) \<Rightarrow> (s, set_state h1 t (with_coroutine (state (objs h1 t)) c1)))
               else
                 (case coroutine_send h c of
                    (s, c1, h1) \<Rightarrow> (s, set_state h1 t (with_coroutine (state (objs h1 t)) c1)))
           | None \<Rightarrow>
               (case coroutine_send h c of
                  (s, c1, h1) \<Rightarrow> (s, set_state h1 t (with_coroutine (state (objs h1 t)) c1))))
      | _ \<Rightarrow> (Raised AssertionError, h))"

text \<open>The \<open>finally\<close> clause of \<open>_execute_coroutine_step\<close>.\<close>

definition unsubscribe_if_running :: "pheap \<Rightarrow> addr \<Rightarrow> pheap" where
  "unsubscribe_if_running h t =
     (case state (objs h t) of
        RunningState cbs c w \<Rightarrow> snd (Future_remove_callback h w (ExecuteCoroutineStep t))
      | _ \<Rightarrow> h)"

definition Task__execute_coroutine_step :: "pheap \<Rightarrow> addr \<Rightarrow> exc option \<Rightarrow> (exc + unit) \<times> pheap" where
  "Task__execute_coroutine_step h t inner_cancel =
     (let st = state (objs h t);
          resumable = (case st of ScheduledState cbs c hnd \<Rightarrow> True
                       | RunningState cbs c w \<Rightarrow> True | _ \<Rightarrow> False)
      in
      if \<not> resumable then (Inl RuntimeError, h)
      else if is_true inner_cancel \<and> (case st of ScheduledState cbs c hnd \<Rightarrow> True | _ \<Rightarrow> False)
      then (Inl AttributeError, h)
      else if is_true inner_cancel \<and>
              (case st of RunningState cbs c w \<Rightarrow> \<not> is_finished h w | _ \<Rightarrow> False)
      then (Inl RuntimeError, h)
      else
        (case Task__send_to_coroutine_within_new_context h t inner_cancel of
           (StopIteration v, h1) \<Rightarrow>
             (case Task__set_result h1 t (Some v) None of
                (r, h2) \<Rightarrow> (r, unsubscribe_if_running h2 t))
         | (Raised e, h1) \<Rightarrow>
             (case Task__set_result h1 t None (Some e) of
                (r, h2) \<Rightarrow> (r, unsubscribe_if_running h2 t))
         | (Yielded f, h1) \<Rightarrow>
             (let h2 = unsubscribe_if_running h1 t in
              if f = t then (Inl RuntimeError, h2)
              else if loop (objs h2 f) \<noteq> loop (objs h2 t) then (Inl RuntimeError, h2)
              else
                (case Future_add_callback h2 f (ExecuteCoroutineStep t) of
                   (Inl err, h3) \<Rightarrow> (Inl err, h3)
                 | (Inr u, h3) \<Rightarrow>
                     (case state_coroutine (state (objs h3 t)) of
                        None \<Rightarrow> (Inl AttributeError, h3)
                      | Some c \<Rightarrow>
                          if post_init_ok CORO_SUSPENDED c
                          then (Inr (), set_state h3 t
                                  (RunningState (result_callbacks (state (objs h3 t))) c f))
                          else (Inl RuntimeError, h3))))))"

subsection \<open>Promise and factories\<close>

text \<open>
  A \<open>FuturePromise\<close> is named by the address of its future; its constructor refuses a
  task, so \<open>self._fut._cancel\<close> is \<open>Future._cancel\<close>.
\<close>

definition FuturePromise_set_result :: "pheap \<Rightarrow> addr \<Rightarrow> val \<Rightarrow> (exc + unit) \<times> pheap" where
  "FuturePromise_set_result h p v = set_result_of h p (Some v) None"

definition FuturePromise_set_exception :: "pheap \<Rightarrow> addr \<Rightarrow> exc \<Rightarrow> (exc + unit) \<times> pheap" where
  "FuturePromise_set_exception h p e =
     (if is_Cancelled e then (Inl TypeError, h) else set_result_of h p None (Some e))"

definition FuturePromise_cancel :: "pheap \<Rightarrow> addr \<Rightarrow> cancel_arg \<Rightarrow> (exc + unit) \<times> pheap" where
  "FuturePromise_cancel h p x = Future__cancel h p x"

definition create_promise :: "pheap \<Rightarrow> nat \<Rightarrow> addr \<times> pheap" where
  "create_promise h lp =
     (next_id h,
      h\<lparr>objs := (objs h)(next_id h := \<lparr>is_task = False, state = PendingState [], loop = lp\<rparr>),
        next_id := Suc (next_id h)\<rparr>)"


subsection \<open>Running the loop\<close>

text \<open>
  Calling what the loop holds. A step is called with no argument (the first step), with
  the finished future (as a result callback), or with \<open>None\<close> and the exception of an
  inner cancel. Callables that are not of the library change nothing.
\<close>

fun call :: "pheap \<Rightarrow> callback \<Rightarrow> arg list \<Rightarrow> (exc + unit) \<times> pheap" where
  "call h (ExecuteCoroutineStep t) [] = Task__execute_coroutine_step h t None"
| "call h (ExecuteCoroutineStep t) [a] = Task__execute_coroutine_step h t None"
| "call h (ExecuteCoroutineStep t) [a, ArgExc e] = Task__execute_coroutine_step h t (Some e)"
| "call h (ExecuteCoroutineStep t) [a, ArgNone] = Task__execute_coroutine_step h t None"
| "call h (ExecuteCoroutineStep t) args = (Inl TypeError, h)"
| "call h cb args = (Inr (), h)"

text \<open>
  \<open>loop_call_last_enqueued\<close> of the tests: pop the first entry and call it, until the
  list is empty; an exception of a call ends the run. The first argument bounds the
  number of calls; \<open>None\<close> says the bound was reached with entries left.
\<close>

fun loop_call_last_enqueued :: "nat \<Rightarrow> pheap \<Rightarrow> ((exc + unit) \<times> pheap) option" where
  "loop_call_last_enqueued n h =
     (case ready h of
        [] \<Rightarrow> Some (Inr (), h)
      | (target, args) # rest \<Rightarrow>
          (case n of
             0 \<Rightarrow> None
           | Suc m \<Rightarrow>
               (case call (h\<lparr>ready := rest\<rparr>) target args of
                  (Inl err, h1) \<Rightarrow> Some (Inl err, h1)
                | (Inr u, h1) \<Rightarrow> loop_call_last_enqueued m h1)))"


section \<open>\<open>aio/future.py\<close>\<close>

text \<open>
  The module \<open>aio/future.py\<close> has classes of the same names; its definitions carry a
  prime. \<open>_not_set\<close> is \<open>None\<close> of an option. The set \<open>_result_callbacks\<close> is the list
  of its elements in the order they were added; the loop of \<open>_call_cbs\<close> over it takes
  them in the order \<open>iteration\<close> gives. The task attributes of a plain future are not
  read.
\<close>

subsection \<open>Future\<close>

datatype State = created | scheduled | running | finishing | finished

record future' =
  is_task' :: bool
  value' :: "val option"
  exc' :: "exc option"
  result_callbacks' :: "callback list"
  state' :: State
  loop' :: nat
  coroutine' :: coroutine
  waiting_on' :: "addr option"
  pending_cancellation' :: bool
  started_promise' :: addr

type_synonym fheap = "future' heap"

definition upd :: "fheap \<Rightarrow> addr \<Rightarrow> (future' \<Rightarrow> future') \<Rightarrow> fheap" where
  "upd h a f = h\<lparr>objs := (objs h)(a := f (objs h a))\<rparr>"

definition is_finished' :: "fheap \<Rightarrow> addr \<Rightarrow> exc + bool" where
  "is_finished' h a =
     (let fin = (value' (objs h a) \<noteq> None \<or> exc' (objs h a) \<noteq> None)
      in if \<not> (\<not> fin \<or> state' (objs h a) = finished) then Inl AssertionError else Inr fin)"

definition Future_result' :: "fheap \<Rightarrow> addr \<Rightarrow> exc + val" where
  "Future_result' h a =
     (case is_finished' h a of
        Inl err \<Rightarrow> Inl err
      | Inr False \<Rightarrow> Inl FutureNotReady
      | Inr True \<Rightarrow>
          (case exc' (objs h a) of
             Some e \<Rightarrow> Inl e
           | None \<Rightarrow> (case value' (objs h a) of None \<Rightarrow> Inl AssertionError | Some v \<Rightarrow> Inr v)))"

definition Future_exception' :: "fheap \<Rightarrow> addr \<Rightarrow> exc + exc option" where
  "Future_exception' h a =
     (case is_finished' h a of
        Inl err \<Rightarrow> Inl err
      | Inr False \<Rightarrow> Inl FutureNotReady
      | Inr True \<Rightarrow> Inr (exc' (objs h a)))"

definition Future__schedule_cb' :: "fheap \<Rightarrow> addr \<Rightarrow> callback \<Rightarrow> (exc + unit) \<times> fheap" where
  "Future__schedule_cb' h a cb =
     (case is_finished' h a of
        Inl err \<Rightarrow> (Inl err, h)
      | Inr False \<Rightarrow> (Inl AssertionError, h)
      | Inr True \<Rightarrow> (Inr (), snd (call_soon h cb [ArgFuture a])))"

definition Future_add_callback' :: "fheap \<Rightarrow> addr \<Rightarrow> callback \<Rightarrow> (exc + unit) \<times> fheap" where
  "Future_add_callback' h a cb =
     (if cb \<in> set (result_callbacks' (objs h a)) then (Inr (), h)
      else
        (case is_finished' h a of
           Inl err \<Rightarrow> (Inl err, h)
         | Inr True \<Rightarrow> Future__schedule_cb' h a cb
         | Inr False \<Rightarrow>
             (Inr (), upd h a (\<lambda>ob. ob\<lparr>result_callbacks' := result_callbacks' ob @ [cb]\<rparr>))))"

text \<open>\<open>set.remove\<close> raises \<open>KeyError\<close> for an element that is not in the set; the handler is for \<open>ValueError\<close>.\<close>

definition Future_remove_callback' :: "fheap \<Rightarrow> addr \<Rightarrow> callback \<Rightarrow> (exc + unit) \<times> fheap" where
  "Future_remove_callback' h a cb =
     (if cb \<in> set (result_callbacks' (objs h a))
      then (Inr (), upd h a (\<lambda>ob. ob\<lparr>result_callbacks' := removeAll cb (result_callbacks' ob)\<rparr>))
      else (Inl KeyError, h))"

definition is_cancelled' :: "fheap \<Rightarrow> addr \<Rightarrow> exc + bool" where
  "is_cancelled' h a =
     (case is_finished' h a of
        Inl err \<Rightarrow> Inl err
      | Inr fin \<Rightarrow>
          Inr (fin \<and> (case exc' (objs h a) of Some e \<Rightarrow> is_Cancelled e | None \<Rightarrow> False)))"

fun schedule_each' :: "fheap \<Rightarrow> addr \<Rightarrow> callback list \<Rightarrow> (exc + unit) \<times> fheap" where
  "schedule_each' h a [] = (Inr (), h)"
| "schedule_each' h a (cb # cbs) =
     (case Future__schedule_cb' h a cb of
        (Inl err, h1) \<Rightarrow> (Inl err, h1)
      | (Inr u, h1) \<Rightarrow> schedule_each' h1 a cbs)"

definition Future__call_cbs' :: "fheap \<Rightarrow> addr \<Rightarrow> (exc + unit) \<times> fheap" where
  "Future__call_cbs' h a =
     (case is_finished' h a of
        Inl err \<Rightarrow> (Inl err, h)
      | Inr False \<Rightarrow> (Inl AssertionError, h)
      | Inr True \<Rightarrow> schedule_each' h a (iteration h (result_callbacks' (objs h a))))"

definition Future__set_result' ::
    "fheap \<Rightarrow> addr \<Rightarrow> val option \<Rightarrow> exc option \<Rightarrow> (exc + unit) \<times> fheap" where
  "Future__set_result' h a v e =
     (case is_finished' h a of
        Inl err \<Rightarrow> (Inl err, h)
      | Inr True \<Rightarrow> (Inl FutureFinishedError, h)
      | Inr False \<Rightarrow>
          Future__call_cbs' (upd h a (\<lambda>ob. ob\<lparr>state' := finished, value' := v, exc' := e\<rparr>)) a)"

subsection \<open>Task\<close>

text \<open>
  The started promise is made by \<open>_create_promise\<close> over a plain \<open>Future\<close>, so its
  \<open>set_result\<close> is \<open>Future._set_result\<close>.
\<close>

definition Task__set_result' ::
    "fheap \<Rightarrow> addr \<Rightarrow> val option \<Rightarrow> exc option \<Rightarrow> (exc + unit) \<times> fheap" where
  "Task__set_result' h t v e =
     (case Future__set_result' h t v e of
        (Inl err, h1) \<Rightarrow> (Inl err, h1)
      | (Inr u, h1) \<Rightarrow>
          (case is_finished' h1 (started_promise' (objs h1 t)) of
             Inl err \<Rightarrow> (Inl err, h1)
           | Inr True \<Rightarrow> (Inr (), h1)
           | Inr False \<Rightarrow>
               Future__set_result' h1 (started_promise' (objs h1 t)) (Some NoneVal) None))"

definition set_result_of' ::
    "fheap \<Rightarrow> addr \<Rightarrow> val option \<Rightarrow> exc option \<Rightarrow> (exc + unit) \<times> fheap" where
  "set_result_of' h a v e =
     (if is_task' (objs h a) then Task__set_result' h a v e else Future__set_result' h a v e)"

text \<open>\<open>Cancelled(msg)\<close> is a new instance at each call.\<close>

definition Future__cancel' :: "fheap \<Rightarrow> addr \<Rightarrow> string option \<Rightarrow> (exc + unit) \<times> fheap" where
  "Future__cancel' h a msg =
     set_result_of' (h\<lparr>next_id := Suc (next_id h)\<rparr>) a None (Some (Cancelled (next_id h) msg True))"

fun Task__cancel' :: "nat \<Rightarrow> fheap \<Rightarrow> addr \<Rightarrow> string option \<Rightarrow> ((exc + unit) \<times> fheap) option" where
  "Task__cancel' 0 h t msg = None"
| "Task__cancel' (Suc n) h t msg =
     (case is_finished' h t of
        Inl err \<Rightarrow> Some (Inl err, h)
      | Inr True \<Rightarrow> Some (Inl FutureFinishedError, h)
      | Inr False \<Rightarrow>
          (let h1 = upd h t (\<lambda>ob. ob\<lparr>state' := finishing\<rparr>) in
           case waiting_on' (objs h1 t) of
             Some w \<Rightarrow>
               if is_task' (objs h1 w) then Task__cancel' n h1 w msg
               else Some (Future__cancel' h1 w msg)
           | None \<Rightarrow> Some (Future__cancel' h1 t msg)))"

definition Task__schedule_execution' :: "fheap \<Rightarrow> addr \<Rightarrow> (exc + unit) \<times> fheap" where
  "Task__schedule_execution' h t =
     (let h1 = snd (call_soon h (ExecuteCoroutineStep t) [])
      in (Inr (),
          if state' (objs h1 t) = created then upd h1 t (\<lambda>ob. ob\<lparr>state' := scheduled\<rparr>) else h1))"

text \<open>
  \<open>Future.__await__\<close>, as for the other module: up to the \<open>yield\<close>, and from it on.
  \<open>if self._exception:\<close> tests the truth value of the stored exception; with one that
  is false the run goes on to the assertion on \<open>_value\<close>.
\<close>

definition Future_await_resumed' :: "fheap \<Rightarrow> addr \<Rightarrow> exc + val" where
  "Future_await_resumed' h a =
     (case is_finished' h a of
        Inl err \<Rightarrow> Inl err
      | Inr False \<Rightarrow> Inl FutureNotReady
      | Inr True \<Rightarrow>
          (let stored = (case value' (objs h a) of None \<Rightarrow> Inl AssertionError | Some v \<Rightarrow> Inr v)
           in case exc' (objs h a) of
                Some e \<Rightarrow> if truth e then Inl e else stored
              | None \<Rightarrow> stored))"

definition Future_await' :: "fheap \<Rightarrow> addr \<Rightarrow> (exc + val) option" where
  "Future_await' h a =
     (case is_finished' h a of
        Inl err \<Rightarrow> Some (Inl err)
      | Inr False \<Rightarrow> None
      | Inr True \<Rightarrow> Some (Future_await_resumed' h a))"

primrec run' :: "coro \<Rightarrow> fheap \<Rightarrow> ran" where
  "run' (Return v) = (\<lambda>h. Ended (Inr v))"
| "run' (Raise e) = (\<lambda>h. Ended (Inl e))"
| "run' (Await f k) = (\<lambda>h.
     case Future_await' h f of
       None \<Rightarrow> Suspended f (Await f k)
     | Some r \<Rightarrow> run' (k r) h)"

definition suspend_or_close' :: "ran \<Rightarrow> sent \<times> coroutine" where
  "suspend_or_close' r =
     (case r of
        Suspended f c \<Rightarrow> (Yielded f, Coroutine CORO_SUSPENDED c)
      | Ended (Inr v) \<Rightarrow> (StopIteration v, Coroutine CORO_CLOSED (Return v))
      | Ended (Inl e) \<Rightarrow> (Raised e, Coroutine CORO_CLOSED (Raise e)))"

definition coroutine_send' :: "fheap \<Rightarrow> coroutine \<Rightarrow> sent \<times> coroutine" where
  "coroutine_send' h c =
     (case getcoroutinestate c of
        CORO_CREATED \<Rightarrow> suspend_or_close' (run' (frame c) h)
      | CORO_SUSPENDED \<Rightarrow>
          (case frame c of
             Await f k \<Rightarrow> suspend_or_close' (run' (k (Future_await_resumed' h f)) h)
           | other \<Rightarrow> suspend_or_close' (run' other h))
      | CORO_RUNNING \<Rightarrow> (Raised ValueError, c)
      | CORO_CLOSED \<Rightarrow> (Raised RuntimeError, c))"

text \<open>
  The handler of \<open>_execute_coroutine_step\<close> is \<open>except Exception\<close>. The classes of
  \<open>aio.exceptions\<close> are not among the sources; they are taken to derive from \<open>Exception\<close>,
  as the annotation \<open>exc: Union[Exception, _NotSet]\<close> of \<open>_set_result\<close> has it for the
  \<open>Cancelled\<close> that \<open>_cancel\<close> passes, so the handler takes every exception of the model.
\<close>

definition Task__execute_coroutine_step' :: "fheap \<Rightarrow> addr \<Rightarrow> (exc + unit) \<times> fheap" where
  "Task__execute_coroutine_step' h t =
     (case coroutine_send' h (coroutine' (objs h t)) of
        (s, c1) \<Rightarrow>
          (let h1 = upd h t (\<lambda>ob. ob\<lparr>coroutine' := c1\<rparr>) in
           case s of
             StopIteration v \<Rightarrow> Task__set_result' h1 t (Some v) None
           | Raised e \<Rightarrow> Task__set_result' h1 t None (Some e)
           | Yielded f \<Rightarrow>
               (case (if state' (objs h1 t) = scheduled
                      then Future__set_result' (upd h1 t (\<lambda>ob. ob\<lparr>state' := running\<rparr>))
                             (started_promise' (objs h1 t)) (Some NoneVal) None
                      else (Inr (), h1)) of
                  (Inl err, h2) \<Rightarrow> (Inl err, h2)
                | (Inr u, h2) \<Rightarrow>
                    if f = t then (Inl RuntimeError, h2)
                    else
                      (case (case waiting_on' (objs h2 t) of
                               Some w \<Rightarrow> Future_remove_callback' h2 w (ScheduleExecution t)
                             | None \<Rightarrow> (Inr (), h2)) of
                         (Inl err, h3) \<Rightarrow> (Inl err, h3)
                       | (Inr u, h3) \<Rightarrow>
                           if is_task' (objs h3 f) \<and> loop' (objs h3 f) \<noteq> loop' (objs h3 t)
                           then (Inl RuntimeError, h3)
                           else
                             (case Future_add_callback' h3 f (ScheduleExecution t) of
                                (Inl err, h4) \<Rightarrow> (Inl err, h4)
                              | (Inr u, h4) \<Rightarrow>
                                  (Inr (), upd h4 t (\<lambda>ob. ob\<lparr>waiting_on' := Some f\<rparr>)))))))"

subsection \<open>Promise, \<open>shield\<close> and factories\<close>

definition FuturePromise_set_result' :: "fheap \<Rightarrow> addr \<Rightarrow> val \<Rightarrow> (exc + unit) \<times> fheap" where
  "FuturePromise_set_result' h p v = set_result_of' h p (Some v) None"

definition FuturePromise_set_exception' :: "fheap \<Rightarrow> addr \<Rightarrow> exc \<Rightarrow> (exc + unit) \<times> fheap" where
  "FuturePromise_set_exception' h p e =
     (if is_Cancelled e then (Inl ValueError, h) else set_result_of' h p None (Some e))"

definition FuturePromise_cancel' :: "fheap \<Rightarrow> addr \<Rightarrow> string option \<Rightarrow> (exc + unit) \<times> fheap" where
  "FuturePromise_cancel' h p msg = Future__cancel' h p msg"

definition create_promise' :: "fheap \<Rightarrow> nat \<Rightarrow> addr \<times> fheap" where
  "create_promise' h lp =
     (next_id h,
      h\<lparr>objs := (objs h)(next_id h :=
            \<lparr>is_task' = False, value' = None, exc' = None, result_callbacks' = [],
             state' = running, loop' = lp, coroutine' = Coroutine CORO_CLOSED (Return NoneVal),
             waiting_on' = None, pending_cancellation' = False, started_promise' = next_id h\<rparr>),
        next_id := Suc (next_id h)\<rparr>)"

text \<open>
  The closure \<open>future_done_cb\<close> of \<open>shield(future)\<close>, over \<open>future\<close> and the promise's
  future. \<open>if future.exception:\<close> tests the truth value; with an exception that is false
  the \<open>else\<close> branch reads \<open>future.result\<close>, which raises it. \<open>aio/task_group.py\<close> imports its \<open>shield\<close> from \<open>aio.funcs\<close>, which is not among the
  sources; the \<open>shield\<close> of \<open>aio/future.py\<close> is the one modelled.
\<close>

definition future_done_cb :: "fheap \<Rightarrow> addr \<Rightarrow> addr \<Rightarrow> (exc + unit) \<times> fheap" where
  "future_done_cb h fut p =
     (case is_finished' h fut of
        Inl err \<Rightarrow> (Inl err, h)
      | Inr False \<Rightarrow> (Inl AssertionError, h)
      | Inr True \<Rightarrow>
          (case Future_exception' h fut of
             Inl err \<Rightarrow> (Inl err, h)
           | Inr x \<Rightarrow>
               (let mirror_result =
                      (case Future_result' h fut of
                         Inl err \<Rightarrow> (Inl err, h)
                       | Inr v \<Rightarrow> FuturePromise_set_result' h p v)
                in case x of
                     Some e \<Rightarrow> if truth e then FuturePromise_set_exception' h p e else mirror_result
                   | None \<Rightarrow> mirror_result)))"

definition shield :: "fheap \<Rightarrow> nat \<Rightarrow> addr \<Rightarrow> (exc + addr) \<times> fheap" where
  "shield h lp fut =
     (case create_promise' h lp of
        (p, h1) \<Rightarrow>
          (case Future_add_callback' h1 fut (FutureDoneCb fut p) of
             (Inl err, h2) \<Rightarrow> (Inl err, h2)
           | (Inr u, h2) \<Rightarrow> (Inr p, h2)))"

text \<open>\<open>Task(coro, loop)\<close> and \<open>task._schedule_execution()\<close>; the started promise is the next object made.\<close>

definition create_task' :: "fheap \<Rightarrow> coroutine \<Rightarrow> nat \<Rightarrow> addr \<times> fheap" where
  "create_task' h c lp =
     (let t = next_id h;
          h1 = h\<lparr>objs := (objs h)(t :=
                  \<lparr>is_task' = True, value' = None, exc' = None, result_callbacks' = [],
                   state' = created, loop' = lp, coroutine' = c,
                   waiting_on' = None, pending_cancellation' = False,
                   started_promise' = Suc t\<rparr>),
                 next_id := Suc t\<rparr>;
          h2 = snd (create_promise' h1 lp)
      in (t, snd (Task__schedule_execution' h2 t)))"

fun call' :: "fheap \<Rightarrow> callback \<Rightarrow> arg list \<Rightarrow> (exc + unit) \<times> fheap" where
  "call' h (ExecuteCoroutineStep t) [] = Task__execute_coroutine_step' h t"
| "call' h (ExecuteCoroutineStep t) args = (Inl TypeError, h)"
| "call' h (ScheduleExecution t) [] = Task__schedule_execution' h t"
| "call' h (ScheduleExecution t) [a] = Task__schedule_execution' h t"
| "call' h (ScheduleExecution t) args = (Inl TypeError, h)"
| "call' h (FutureDoneCb fut p) [a] = future_done_cb h fut p"
| "call' h (FutureDoneCb fut p) args = (Inl TypeError, h)"
| "call' h (UserCallback i) args = (Inr (), h)"

fun loop_call_last_enqueued' :: "nat \<Rightarrow> fheap \<Rightarrow> ((exc + unit) \<times> fheap) option" where
  "loop_call_last_enqueued' n h =
     (case ready h of
        [] \<Rightarrow> Some (Inr (), h)
      | (target, args) # rest \<Rightarrow>
          (case n of
             0 \<Rightarrow> None
           | Suc m \<Rightarrow>
               (case call' (h\<lparr>ready := rest\<rparr>) target args of
                  (Inl err, h1) \<Rightarrow> Some (Inl err, h1)
                | (Inr u, h1) \<Rightarrow> loop_call_last_enqueued' m h1)))"

section \<open>\<open>aio/task_group.py\<close>\<close>

text \<open>
  Modelled from the spec: \<open>aio.exceptions.create_multi_error\<close> is not among the
  sources. "MultiError -- aggregate with an ordered list of inner exceptions; flattens
  nested MultiErrors".
\<close>

fun inner_exceptions :: "exc \<Rightarrow> exc list" where
  "inner_exceptions (MultiError msg es) = es"
| "inner_exceptions e = [e]"

definition create_multi_error :: "string \<Rightarrow> exc list \<Rightarrow> exc" where
  "create_multi_error msg es = MultiError msg (concat (map inner_exceptions es))"

record TaskGroup =
  tasks :: "addr list"
  is_finalized :: bool

fun cancel_each :: "nat \<Rightarrow> fheap \<Rightarrow> addr list \<Rightarrow> string option \<Rightarrow> ((exc + unit) \<times> fheap) option" where
  "cancel_each n h [] msg = Some (Inr (), h)"
| "cancel_each n h (t # ts) msg =
     (case Task__cancel' n h t msg of
        None \<Rightarrow> None
      | Some (Inl err, h1) \<Rightarrow> Some (Inl err, h1)
      | Some (Inr u, h1) \<Rightarrow> cancel_each n h1 ts msg)"

definition TaskGroup_cancel ::
    "nat \<Rightarrow> fheap \<Rightarrow> TaskGroup \<Rightarrow> string option \<Rightarrow> ((exc + unit) \<times> fheap) option" where
  "TaskGroup_cancel n h g msg = cancel_each n h (tasks g) msg"

definition TaskGroup_spawn ::
    "fheap \<Rightarrow> TaskGroup \<Rightarrow> coroutine \<Rightarrow> nat \<Rightarrow> (exc + addr) \<times> fheap \<times> TaskGroup" where
  "TaskGroup_spawn h g c lp =
     (if is_finalized g then (Inl RuntimeError, h, g)
      else (case create_task' h c lp of (t, h1) \<Rightarrow> (Inr t, h1, g\<lparr>tasks := tasks g @ [t]\<rparr>)))"

text \<open>
  \<open>_join\<close> once the loop over \<open>iter_done_futures\<close> has ended normally (\<open>aio.gather\<close>
  is not among the sources): the assertion, the list comprehension over \<open>task.exception\<close>
  (its filter \<open>if task.exception\<close> is of the truth value: the exceptions that are true,
  in the order of \<open>_tasks\<close>), and the \<open>raise\<close>.
\<close>

fun all_finished :: "fheap \<Rightarrow> addr list \<Rightarrow> exc + bool" where
  "all_finished h [] = Inr True"
| "all_finished h (t # ts) =
     (case is_finished' h t of
        Inl err \<Rightarrow> Inl err
      | Inr False \<Rightarrow> Inr False
      | Inr True \<Rightarrow> all_finished h ts)"

fun task_exceptions :: "fheap \<Rightarrow> addr list \<Rightarrow> exc + exc list" where
  "task_exceptions h [] = Inr []"
| "task_exceptions h (t # ts) =
     (case Future_exception' h t of
        Inl err \<Rightarrow> Inl err
      | Inr None \<Rightarrow> task_exceptions h ts
      | Inr (Some e) \<Rightarrow>
          if truth e
          then (case task_exceptions h ts of Inl err \<Rightarrow> Inl err | Inr es \<Rightarrow> Inr (e # es))
          else task_exceptions h ts)"

definition TaskGroup__join :: "fheap \<Rightarrow> TaskGroup \<Rightarrow> (exc + unit) \<times> TaskGroup" where
  "TaskGroup__join h g =
     (let g1 = g\<lparr>is_finalized := True\<rparr> in
      case all_finished h (tasks g) of
        Inl err \<Rightarrow> (Inl err, g1)
      | Inr False \<Rightarrow> (Inl AssertionError, g1)
      | Inr True \<Rightarrow>
          (case task_exceptions h (tasks g) of
             Inl err \<Rightarrow> (Inl err, g1)
           | Inr [] \<Rightarrow> (Inr (), g1)
           | Inr es \<Rightarrow> (Inl (create_multi_error ''Child task errors'' es), g1)))"


section \<open>Concrete heaps\<close>

definition no_future :: future where
  "no_future = \<lparr>is_task = False, state = PendingState [], loop = 0\<rparr>"

definition empty_heap :: pheap where
  "empty_heap = \<lparr>objs = (\<lambda>a. no_future), ready = [], next_id = 0, set_order = (\<lambda>cbs cb. 0)\<rparr>"

definition pending_heap :: pheap where
  "pending_heap = snd (create_promise empty_heap 0)"

definition success_heap :: pheap where
  "success_heap = snd (FuturePromise_set_result pending_heap 0 (Obj 1))"

definition failed_heap :: pheap where
  "failed_heap = snd (FuturePromise_set_exception pending_heap 0 (UserError 2 True))"

definition no_future' :: "future'" where
  "no_future' = \<lparr>is_task' = False, value' = None, exc' = None, result_callbacks' = [],
     state' = running, loop' = 0, coroutine' = Coroutine CORO_CLOSED (Return NoneVal),
     waiting_on' = None, pending_cancellation' = False, started_promise' = 0\<rparr>"

definition empty_heap' :: fheap where
  "empty_heap' = \<lparr>objs = (\<lambda>a. no_future'), ready = [], next_id = 0, set_order = (\<lambda>cbs cb. 0)\<rparr>"

definition pending_heap' :: fheap where
  "pending_heap' = snd (create_promise' empty_heap' 0)"

definition success_heap' :: fheap where
  "success_heap' = snd (FuturePromise_set_result' pending_heap' 0 (Obj 1))"



text \<open>A callback counts as registered with a future when it is a key of the dict its state holds.\<close>

definition registered :: "pheap \<Rightarrow> addr \<Rightarrow> callback \<Rightarrow> bool" where
  "registered h a cb \<longleftrightarrow>
     cb \<in> set (result_callbacks (state (objs h a))) \<or>
     cb \<in> fst ` set (scheduled_cbs (state (objs h a)))"

text \<open>A task during its first step: the coroutine is running, the state is still the scheduled one.\<close>

definition stepping_heap :: pheap where
  "stepping_heap =
     \<lparr>objs = (\<lambda>a. no_future)(0 := \<lparr>is_task = True,
         state = ScheduledState [] (Coroutine CORO_RUNNING (Return NoneVal))
                   (ExecuteCoroutineStep 0, []),
         loop = 0\<rparr>),
      ready = [], next_id = 1, set_order = (\<lambda>cbs cb. 0)\<rparr>"

definition once_removed_heap' :: fheap where
  "once_removed_heap' =
     snd (Future_remove_callback'
            (snd (Future_add_callback' pending_heap' 0 (UserCallback 1))) 0 (UserCallback 1))"

text \<open>The coroutine \<open>async def coro(): return await fut\<close> is \<open>Await fut propagate\<close>.\<close>

definition propagate :: "exc + val \<Rightarrow> coro" where
  "propagate r = (case r of Inl e \<Rightarrow> Raise e | Inr v \<Rightarrow> Return v)"

text \<open>
  A group after \<open>promise = _create_promise()\<close> (object 0), the spawn of a child that
  returns at once (object 1, its started future 2) and of a child that awaits the
  promise's future (object 3, its started future 4), and a run of the loop.
\<close>

definition spawned_two :: "fheap \<times> TaskGroup" where
  "spawned_two =
     (case TaskGroup_spawn pending_heap' \<lparr>tasks = [], is_finalized = False\<rparr>
             (Coroutine CORO_CREATED (Return (Obj 1))) 0 of
        (r1, h1, g1) \<Rightarrow>
          (case TaskGroup_spawn h1 g1 (Coroutine CORO_CREATED (Await 0 propagate)) 0 of
             (r2, h2, g2) \<Rightarrow> (h2, g2)))"

definition mixed_group :: TaskGroup where
  "mixed_group = snd spawned_two"

definition mixed_heap :: fheap where
  "mixed_heap =
     (case loop_call_last_enqueued' 4 (fst spawned_two) of
        Some (r, h) \<Rightarrow> h
      | None \<Rightarrow> fst spawned_two)"

text \<open>\<open>shield\<close> of a pending future (object 0; the shielding future is object 1), then the cancellation of the future.\<close>

definition shielded_heap :: fheap where
  "shielded_heap = snd (shield pending_heap' 0 0)"

definition shielded_cancelled_heap :: fheap where
  "shielded_cancelled_heap = snd (FuturePromise_cancel' shielded_heap 0 None)"

text \<open>
  A group with one child that awaits a future nobody completes (object 1, awaiting
  object 0), suspended there; then \<open>group.cancel("stop")\<close> and a run of the loop.
\<close>

definition waiting_child :: "fheap \<times> TaskGroup" where
  "waiting_child =
     (case TaskGroup_spawn pending_heap' \<lparr>tasks = [], is_finalized = False\<rparr>
             (Coroutine CORO_CREATED (Await 0 propagate)) 0 of
        (r1, h1, g1) \<Rightarrow>
          (case loop_call_last_enqueued' 1 h1 of Some (r, h2) \<Rightarrow> (h2, g1) | None \<Rightarrow> (h1, g1)))"

definition group_cancelled_heap :: fheap where
  "group_cancelled_heap =
     (case TaskGroup_cancel 1 (fst waiting_child) (snd waiting_child) (Some ''stop'') of
        Some (r, h1) \<Rightarrow>
          (case loop_call_last_enqueued' 2 h1 of Some (r, h2) \<Rightarrow> h2 | None \<Rightarrow> h1)
      | None \<Rightarrow> fst waiting_child)"





text \<open>
  The value or exception a finished future of \<open>aio/future/pure.py\<close> holds (\<open>None\<close> for
  one that is not finished), and the heaps that keep what every finished future holds.
\<close>

fun state_outcome :: "state \<Rightarrow> (exc + val) option" where
  "state_outcome (SuccessState v s) = Some (Inr v)"
| "state_outcome (FailedState e r s) = Some (Inl e)"
| "state_outcome st = None"

definition outcome :: "pheap \<Rightarrow> addr \<Rightarrow> (exc + val) option" where
  "outcome h a = state_outcome (state (objs h a))"

definition keeps :: "pheap \<Rightarrow> pheap \<Rightarrow> bool" where
  "keeps h h1 \<longleftrightarrow> (\<forall>a r. outcome h a = Some r \<longrightarrow> outcome h1 a = Some r)"

text \<open>The same for \<open>aio/future.py\<close>: the pair of \<open>_value\<close> and \<open>_exc\<close> of a finished future.\<close>

definition outcome' :: "fheap \<Rightarrow> addr \<Rightarrow> (val option \<times> exc option) option" where
  "outcome' h a =
     (if is_finished' h a = Inr True then Some (value' (objs h a), exc' (objs h a)) else None)"

definition keeps' :: "fheap \<Rightarrow> fheap \<Rightarrow> bool" where
  "keeps' h h1 \<longleftrightarrow> (\<forall>a r. outcome' h a = Some r \<longrightarrow> outcome' h1 a = Some r)"

text \<open>
  The operations of \<open>aio/future/pure.py\<close> on the objects of a heap, as a caller, the loop
  or a test makes them; the number bounds the recursion of \<open>Task._cancel\<close> and the calls
  of a run of the loop. \<open>None\<close> says the bound was reached.
\<close>

datatype action =
    AddCallback addr callback
  | RemoveCallback addr callback
  | GetResult addr
  | GetException addr
  | PromiseSetResult addr val
  | PromiseSetException addr exc
  | PromiseCancel addr cancel_arg
  | TaskCancel addr cancel_arg
  | ScheduleFirstStep addr
  | LoopCall callback "arg list"
  | RunLoop

fun perform :: "nat \<Rightarrow> action \<Rightarrow> pheap \<Rightarrow> pheap option" where
  "perform n (AddCallback a cb) h = Some (snd (Future_add_callback h a cb))"
| "perform n (RemoveCallback a cb) h = Some (snd (Future_remove_callback h a cb))"
| "perform n (GetResult a) h = Some (snd (Future_result h a))"
| "perform n (GetException a) h = Some (snd (Future_exception h a))"
| "perform n (PromiseSetResult a v) h = Some (snd (FuturePromise_set_result h a v))"
| "perform n (PromiseSetException a e) h = Some (snd (FuturePromise_set_exception h a e))"
| "perform n (PromiseCancel a x) h = Some (snd (FuturePromise_cancel h a x))"
| "perform n (TaskCancel t x) h = map_option snd (Task_cancel n h t x)"
| "perform n (ScheduleFirstStep t) h = Some (snd (Task__schedule_first_step h t))"
| "perform n (LoopCall cb args) h = Some (snd (call h cb args))"
| "perform n RunLoop h = map_option snd (loop_call_last_enqueued n h)"

text \<open>The operations of \<open>aio/future.py\<close> and of the task group.\<close>

datatype action' =
    AddCallback' addr callback
  | RemoveCallback' addr callback
  | PromiseSetResult' addr val
  | PromiseSetException' addr exc
  | PromiseCancel' addr "string option"
  | TaskCancel' addr "string option"
  | ScheduleExecution' addr
  | LoopCall' callback "arg list"
  | RunLoop'
  | GroupCancel "addr list" "string option"

fun perform' :: "nat \<Rightarrow> action' \<Rightarrow> fheap \<Rightarrow> fheap option" where
  "perform' n (AddCallback' a cb) h = Some (snd (Future_add_callback' h a cb))"
| "perform' n (RemoveCallback' a cb) h = Some (snd (Future_remove_callback' h a cb))"
| "perform' n (PromiseSetResult' a v) h = Some (snd (FuturePromise_set_result' h a v))"
| "perform' n (PromiseSetException' a e) h = Some (snd (FuturePromise_set_exception' h a e))"
| "perform' n (PromiseCancel' a msg) h = Some (snd (FuturePromise_cancel' h a msg))"
| "perform' n (TaskCancel' t msg) h = map_option snd (Task__cancel' n h t msg)"
| "perform' n (ScheduleExecution' t) h = Some (snd (Task__schedule_execution' h t))"
| "perform' n (LoopCall' cb args) h = Some (snd (call' h cb args))"
| "perform' n RunLoop' h = map_option snd (loop_call_last_enqueued' n h)"
| "perform' n (GroupCancel ts msg) h =
     map_option snd (TaskGroup_cancel n h \<lparr>tasks = ts, is_finalized = False\<rparr> msg)"

text \<open>
  For \<open>aio/future.py\<close>: a future has a result when \<open>_value\<close> or \<open>_exc\<close> is set. The
  invariant of the started promise: an object with a result is in the state
  \<open>finished\<close>; the started promise of no object is a task (it is a plain future of
  \<open>_create_promise\<close>; a plain future made by \<open>create_promise'\<close> names itself there);
  and the started promise of a task that has a result has a result.
\<close>

definition has_result :: "future' \<Rightarrow> bool" where
  "has_result ob \<longleftrightarrow> value' ob \<noteq> None \<or> exc' ob \<noteq> None"


text \<open>
  Two ways a heap changes: no result is set and no object with a result changes its
  state (\<open>marks\<close>); or the same but for one object, which gets a result and the state
  \<open>finished\<close> (\<open>finishes\<close>). In both no object changes its class or its started promise.
\<close>

definition same_shape :: "fheap \<Rightarrow> fheap \<Rightarrow> bool" where
  "same_shape h h1 \<longleftrightarrow>
     (\<forall>a. is_task' (objs h1 a) = is_task' (objs h a) \<and>
          started_promise' (objs h1 a) = started_promise' (objs h a))"

definition marks :: "fheap \<Rightarrow> fheap \<Rightarrow> bool" where
  "marks h h1 \<longleftrightarrow> same_shape h h1 \<and>
     (\<forall>a. has_result (objs h1 a) = has_result (objs h a)) \<and>
     (\<forall>a. has_result (objs h a) \<longrightarrow> state' (objs h1 a) = state' (objs h a))"










section \<open>Properties\<close>

lemmas pure_defs = Future_result_def Future_exception_def Future_add_callback_def
  Future_remove_callback_def is_finished_def is_cancelled_def Future__schedule_callbacks_def
  Future__set_result_def Task__set_result_def set_result_of_def Future__cancel_def
  FuturePromise_set_result_def FuturePromise_set_exception_def FuturePromise_cancel_def
  create_promise_def set_state_def call_soon_def handle_cancel_def coerce_cancel_arg_def
  empty_heap_def no_future_def pending_heap_def success_heap_def failed_heap_def Let_def

lemmas fut_defs' = is_finished'_def Future_result'_def Future_exception'_def
  Future__schedule_cb'_def Future_add_callback'_def Future_remove_callback'_def
  is_cancelled'_def Future__call_cbs'_def Future__set_result'_def Task__set_result'_def
  set_result_of'_def Future__cancel'_def Task__schedule_execution'_def
  FuturePromise_set_result'_def FuturePromise_set_exception'_def create_promise'_def
  future_done_cb_def shield_def create_task'_def upd_def call_soon_def empty_heap'_def
  no_future'_def pending_heap'_def success_heap'_def Let_def iteration_def

subsection \<open>State updates\<close>

lemma with_result_callbacks_same: "with_result_callbacks st (result_callbacks st) = st"
  by (cases st) simp_all

lemma set_state_same: "set_state h a (state (objs h a)) = h"
  by (simp add: set_state_def)

lemma state_set_state: "state (objs (set_state h a st) b) = (if b = a then st else state (objs h b))"
  by (simp add: set_state_def)

lemma ready_set_state: "ready (set_state h a st) = ready h"
  by (simp add: set_state_def)

lemma result_callbacks_with: "is_PendingState st \<Longrightarrow> result_callbacks (with_result_callbacks st n) = n"
  by (cases st) simp_all

lemma scheduled_with_result: "scheduled_cbs (with_result_callbacks st n) = scheduled_cbs st"
  by (cases st) simp_all

lemma scheduled_pending: "is_PendingState st \<Longrightarrow> scheduled_cbs st = []"
  by (cases st) simp_all

lemma result_callbacks_finished: "\<not> is_PendingState st \<Longrightarrow> result_callbacks st = []"
  by (cases st) simp_all

lemma scheduled_with_scheduled: "\<not> is_PendingState st \<Longrightarrow> scheduled_cbs (with_scheduled_cbs st n) = n"
  by (cases st) simp_all

lemma result_with_scheduled: "result_callbacks (with_scheduled_cbs st n) = result_callbacks st"
  by (cases st) simp_all

subsection \<open>\<open>add_callback\<close> on a finished future\<close>

text \<open>
  C3, as stated, fails on \<open>aio/future.py\<close>: there \<open>add_callback\<close> on a finished
  future returns normally and puts the callback on the loop.
\<close>

theorem C3_counterexample:
  "Future_add_callback' success_heap' 0 (UserCallback 1) =
     (Inr (), success_heap'\<lparr>ready := [(UserCallback 1, [ArgFuture 0])]\<rparr>)"
  by (simp add: fut_defs')

text \<open>
  C3, amended: on a finished future of \<open>aio/future/pure.py\<close>, \<open>add_callback(cb)\<close> fails
  with \<open>FutureFinishedError\<close> and changes nothing: not the future, not the loop (so
  the callback is not scheduled, and nothing will call it). On a finished future of
  \<open>aio/future.py\<close> it returns normally: a callback already in the set is ignored, any
  other is put on the loop with the future as its argument; the set of callbacks is
  left as it was.
\<close>

theorem C3_add_callback_finished:
  "(is_finished h a \<longrightarrow> Future_add_callback h a cb = (Inl FutureFinishedError, h)) \<and>
   (is_finished' h' a = Inr True \<longrightarrow>
      Future_add_callback' h' a cb =
        (Inr (), if cb \<in> set (result_callbacks' (objs h' a)) then h'
                 else h'\<lparr>ready := ready h' @ [(cb, [ArgFuture a])]\<rparr>))"
  by (simp add: Future_add_callback_def is_finished_def Future_add_callback'_def
      Future__schedule_cb'_def call_soon_def)

theorem C3_add_callback_finished_witness:
  "is_finished success_heap 0 \<and>
   Future_add_callback success_heap 0 (UserCallback 1) = (Inl FutureFinishedError, success_heap) \<and>
   is_finished' success_heap' 0 = Inr True \<and>
   Future_add_callback' success_heap' 0 (UserCallback 1) =
     (Inr (), success_heap'\<lparr>ready := ready success_heap' @ [(UserCallback 1, [ArgFuture 0])]\<rparr>)"
proof -
  have p: "is_finished success_heap 0"
    by (simp add: pure_defs)
  have q: "is_finished' success_heap' 0 = Inr True"
    by (simp add: fut_defs')
  have r: "UserCallback 1 \<notin> set (result_callbacks' (objs success_heap' 0))"
    by (simp add: fut_defs')
  show ?thesis
    using C3_add_callback_finished [of success_heap 0 "UserCallback 1" success_heap'] p q r
    by simp
qed

subsection \<open>Cancelling from inside the coroutine\<close>

text \<open>
  C8: when the coroutine of a task is running (the task is in one of its three task
  states and \<open>inspect.getcoroutinestate\<close> gives \<open>CORO_RUNNING\<close>), \<open>Task.cancel\<close>
  raises \<open>SelfCancelForbidden\<close> and nothing is changed: not the task, not any other
  object, not the loop.
\<close>

theorem C8_self_cancel_forbidden:
  "state_coroutine (state (objs h t)) = Some c \<Longrightarrow> getcoroutinestate c = CORO_RUNNING \<Longrightarrow>
   Task_cancel n h t x = Some (Inl SelfCancelForbidden, h)"
  by (simp add: Task_cancel_def)

theorem C8_self_cancel_forbidden_witness:
  "state_coroutine (state (objs stepping_heap 0)) = Some (Coroutine CORO_RUNNING (Return NoneVal)) \<and>
   getcoroutinestate (Coroutine CORO_RUNNING (Return NoneVal)) = CORO_RUNNING \<and>
   Task_cancel 1 stepping_heap 0 NoArg = Some (Inl SelfCancelForbidden, stepping_heap)"
proof -
  have a: "state_coroutine (state (objs stepping_heap 0)) = Some (Coroutine CORO_RUNNING (Return NoneVal))"
    by (simp add: stepping_heap_def)
  have b: "getcoroutinestate (Coroutine CORO_RUNNING (Return NoneVal)) = CORO_RUNNING"
    by simp
  from C8_self_cancel_forbidden [OF a b, of 1 NoArg] a b show ?thesis
    by simp
qed

subsection \<open>\<open>remove_callback\<close>\<close>

text \<open>
  On \<open>aio/future/pure.py\<close>: removing a callback that is not registered returns normally
  and changes nothing; after a removal the callback is not registered, so a second
  removal is of that kind; on a finished future the removal of a scheduled callback
  cancels its handle.
\<close>

lemma remove_callback_unregistered:
  assumes nr: "\<not> registered h a cb"
  shows "Future_remove_callback h a cb = (Inr (), h)"
proof -
  from nr have "map_of (scheduled_cbs (state (objs h a))) cb = None"
    by (simp add: registered_def map_of_eq_None_iff)
  moreover from nr have
    "removeAll cb (result_callbacks (state (objs h a))) = result_callbacks (state (objs h a))"
    by (simp add: registered_def)
  ultimately show ?thesis
    by (simp add: Future_remove_callback_def Let_def with_result_callbacks_same set_state_same)
qed

lemma remove_callback_unregisters: "\<not> registered (snd (Future_remove_callback h a cb)) a cb"
proof (cases "is_PendingState (state (objs h a))")
  case True
  then show ?thesis
    by (simp add: registered_def Future_remove_callback_def Let_def state_set_state
        result_callbacks_with scheduled_with_result scheduled_pending)
next
  case False
  show ?thesis
  proof (cases "map_of (scheduled_cbs (state (objs h a))) cb")
    case None
    then have "cb \<notin> fst ` set (scheduled_cbs (state (objs h a)))"
      by (simp add: map_of_eq_None_iff)
    with None False show ?thesis
      by (simp add: registered_def Future_remove_callback_def Let_def result_callbacks_finished)
  next
    case (Some hnd)
    with False show ?thesis
      using delete_notin_dom [of cb "scheduled_cbs (state (objs h a))"]
      by (simp add: registered_def Future_remove_callback_def Let_def state_set_state
          handle_cancel_def result_callbacks_finished scheduled_with_scheduled
          result_with_scheduled)
  qed
qed

lemma remove_callback_twice:
  "Future_remove_callback (snd (Future_remove_callback h a cb)) a cb =
     (Inr (), snd (Future_remove_callback h a cb))"
  by (rule remove_callback_unregistered) (rule remove_callback_unregisters)

lemma remove_callback_cancels_handle:
  "is_finished h a \<Longrightarrow> map_of (scheduled_cbs (state (objs h a))) cb = Some hnd \<Longrightarrow>
   ready (snd (Future_remove_callback h a cb)) = remove1 hnd (ready h)"
  by (simp add: Future_remove_callback_def Let_def is_finished_def handle_cancel_def ready_set_state)

text \<open>
  C9, on \<open>aio/future.py\<close>: \<open>remove_callback\<close> of a callback that is not in the set
  raises \<open>KeyError\<close>, on a future that never had it and on one it was removed from
  before. The claim says both return normally.
\<close>

theorem C9_remove_callback_KeyError:
  "Future_remove_callback' pending_heap' 0 (UserCallback 1) = (Inl KeyError, pending_heap') \<and>
   Future_remove_callback' once_removed_heap' 0 (UserCallback 1) = (Inl KeyError, once_removed_heap')"
  by (simp add: once_removed_heap'_def fut_defs')

subsection \<open>Awaiting a future\<close>




subsection \<open>The task group\<close>

lemmas run_defs' = coroutine_send'_def suspend_or_close'_def Future_await'_def
  Future_await_resumed'_def Task__execute_coroutine_step'_def TaskGroup_spawn_def
  TaskGroup_cancel_def TaskGroup__join_def create_multi_error_def propagate_def
  FuturePromise_cancel'_def

lemma mixed_group_eq: "mixed_group = \<lparr>tasks = [1, 3], is_finalized = False\<rparr>"
  by (simp add: mixed_group_def spawned_two_def fut_defs' run_defs')

text \<open>
  C5, on a group whose first child has finished (with a result) and whose second child
  is suspended on a pending future: \<open>cancel\<close> of the group raises
  \<open>FutureFinishedError\<close> at the finished child and changes nothing, so the live child
  is not cancelled: it is still running, and the future it awaits is still not finished.
  The claim says the call returns normally and cancels the live child.
\<close>

theorem C5_cancel_raises_on_finished_child:
  "is_finished' mixed_heap 1 = Inr True \<and>
   is_finished' mixed_heap 3 = Inr False \<and> waiting_on' (objs mixed_heap 3) = Some 0 \<and>
   TaskGroup_cancel 2 mixed_heap mixed_group (Some ''stop'') =
     Some (Inl FutureFinishedError, mixed_heap) \<and>
   state' (objs mixed_heap 3) = running \<and> is_finished' mixed_heap 0 = Inr False"
  by (simp add: mixed_group_eq TaskGroup_cancel_def)
    (simp add: mixed_heap_def spawned_two_def fut_defs' run_defs' eval_nat_numeral)

theorem C5_cancel_raises_on_finished_child_witness:
  "TaskGroup_cancel 2 mixed_heap mixed_group (Some ''stop'') =
     Some (Inl FutureFinishedError, mixed_heap) \<and>
   waiting_on' (objs mixed_heap 3) = Some 0 \<and> state' (objs mixed_heap 3) = running"
  using C5_cancel_raises_on_finished_child by simp

text \<open>
  C6, on the shield of a pending future that is then cancelled: the callback of the
  shield is on the loop; run, it raises \<open>ValueError\<close> (\<open>set_exception\<close> refuses a
  \<open>Cancelled\<close>), and the shielding future stays unfinished. The claim says it completes
  with the same exception.
\<close>

theorem C6_shield_drops_cancellation:
  "fst (shield pending_heap' 0 0) = Inr 1 \<and>
   is_cancelled' shielded_cancelled_heap 0 = Inr True \<and>
   ready shielded_cancelled_heap = [(FutureDoneCb 0 1, [ArgFuture 0])] \<and>
   loop_call_last_enqueued' 1 shielded_cancelled_heap =
     Some (Inl ValueError, shielded_cancelled_heap\<lparr>ready := []\<rparr>) \<and>
   is_finished' (shielded_cancelled_heap\<lparr>ready := []\<rparr>) 1 = Inr False"
  by (simp add: shielded_cancelled_heap_def shielded_heap_def fut_defs' run_defs')

theorem C6_shield_drops_cancellation_witness:
  "fst (shield pending_heap' 0 0) = Inr 1 \<and>
   loop_call_last_enqueued' 1 shielded_cancelled_heap =
     Some (Inl ValueError, shielded_cancelled_heap\<lparr>ready := []\<rparr>) \<and>
   is_finished' (shielded_cancelled_heap\<lparr>ready := []\<rparr>) 1 = Inr False"
  using C6_shield_drops_cancellation by (simp del: loop_call_last_enqueued'.simps)


lemma group_cancelled_heap_child:
  "all_finished group_cancelled_heap [1] = Inr True \<and>
   exc' (objs group_cancelled_heap 1) = Some (Cancelled 3 (Some ''stop'') True)"
  by (simp add: group_cancelled_heap_def waiting_child_def fut_defs' run_defs' eval_nat_numeral)









subsection \<open>A finished future stays as it is\<close>

lemma keeps_refl: "keeps h h"
  by (simp add: keeps_def)

lemma keeps_trans: "keeps h h1 \<Longrightarrow> keeps h1 h2 \<Longrightarrow> keeps h h2"
  by (simp add: keeps_def)

lemma keeps_objs: "objs h1 = objs h \<Longrightarrow> keeps h h1"
  by (simp add: keeps_def outcome_def)

lemma state_outcome_pending: "is_PendingState st \<Longrightarrow> state_outcome st = None"
  by (cases st) simp_all

lemma state_outcome_finished: "\<not> is_PendingState st \<Longrightarrow> state_outcome st \<noteq> None"
  by (cases st) simp_all

lemma keeps_set_state:
  "state_outcome (state (objs h a)) = None \<or> state_outcome st = state_outcome (state (objs h a))
   \<Longrightarrow> keeps h (set_state h a st)"
  by (auto simp: keeps_def outcome_def state_set_state)

lemma keeps_Future_result: "Future_result h a = (r, h1) \<Longrightarrow> keeps h h1"
  by (auto simp: Future_result_def keeps_refl intro!: keeps_set_state split: state.splits)

lemma keeps_Future_exception: "Future_exception h a = (r, h1) \<Longrightarrow> keeps h h1"
  by (auto simp: Future_exception_def keeps_refl intro!: keeps_set_state split: state.splits)

lemma keeps_add_callback: "Future_add_callback h a cb = (r, h1) \<Longrightarrow> keeps h h1"
  by (auto simp: Future_add_callback_def Let_def keeps_refl state_outcome_pending
      intro!: keeps_set_state split: if_splits)

lemma state_outcome_with_scheduled: "state_outcome (with_scheduled_cbs st n) = state_outcome st"
  by (cases st) simp_all

lemma state_outcome_with_coroutine: "state_outcome (with_coroutine st n) = state_outcome st"
  by (cases st) simp_all

lemma keeps_handle_cancel: "keeps h (handle_cancel h hnd)"
  by (simp add: handle_cancel_def keeps_objs)

lemma keeps_remove_callback: "Future_remove_callback h a cb = (r, h1) \<Longrightarrow> keeps h h1"
  by (auto simp: Future_remove_callback_def Let_def keeps_refl state_outcome_pending
        state_outcome_with_scheduled
      intro!: keeps_set_state keeps_trans [OF keeps_set_state keeps_handle_cancel]
      split: option.splits if_splits)

lemma objs_schedule_each: "schedule_each h a cbs m = (m1, h1) \<Longrightarrow> objs h1 = objs h"
  by (induction cbs arbitrary: h m m1 h1) (auto simp: call_soon_def split: prod.splits)

lemma objs_schedule_callbacks: "Future__schedule_callbacks h a = (r, h1) \<Longrightarrow> objs h1 = objs h"
  by (auto simp: Future__schedule_callbacks_def split: prod.splits if_splits
      dest: objs_schedule_each)

lemma keeps_Future__set_result: "Future__set_result h a v e = (r, h1) \<Longrightarrow> keeps h h1"
proof (cases "is_PendingState (state (objs h a))")
  case False
  assume "Future__set_result h a v e = (r, h1)"
  with False show ?thesis by (auto simp: Future__set_result_def keeps_refl split: if_splits)
next
  case True
  assume eq: "Future__set_result h a v e = (r, h1)"
  obtain r2 h2 where s: "Future__schedule_callbacks h a = (r2, h2)"
    by (cases "Future__schedule_callbacks h a")
  then have o: "objs h2 = objs h" by (rule objs_schedule_callbacks)
  then have k: "keeps h h2" by (rule keeps_objs)
  from True o have p: "state_outcome (state (objs h2 a)) = None"
    by (simp add: state_outcome_pending)
  have "keeps h (set_state h2 a st)" for st
    using keeps_trans [OF k keeps_set_state] p by blast
  with s k eq show ?thesis
    by (auto simp: Future__set_result_def keeps_refl split: sum.splits option.splits if_splits)
qed

lemma keeps_Task__set_result: "Task__set_result h a v e = (r, h1) \<Longrightarrow> keeps h h1"
  by (auto simp: Task__set_result_def keeps_refl dest: keeps_Future__set_result
      split: option.splits if_splits)

lemma keeps_set_result_of: "set_result_of h a v e = (r, h1) \<Longrightarrow> keeps h h1"
  by (auto simp: set_result_of_def dest: keeps_Task__set_result keeps_Future__set_result
      split: if_splits)

lemma objs_coerce: "coerce_cancel_arg h x = (e, h1) \<Longrightarrow> objs h1 = objs h"
  by (auto simp: coerce_cancel_arg_def split: cancel_arg.splits)

lemma keeps_Future__cancel: "Future__cancel h a x = (r, h1) \<Longrightarrow> keeps h h1"
  by (auto simp: Future__cancel_def split: prod.splits
      dest!: objs_coerce keeps_set_result_of intro: keeps_trans [OF keeps_objs])

lemma keeps_call_soon: "call_soon h cb args = (hnd, h1) \<Longrightarrow> keeps h h1"
  by (auto simp: call_soon_def keeps_objs)

lemma keeps_Task__cancel: "Task__cancel n h t x = Some (r, h1) \<Longrightarrow> keeps h h1"
proof (induction n arbitrary: h t r h1)
  case 0
  then show ?case by simp
next
  case (Suc n)
  show ?case
  proof (cases "state (objs h t)")
    case (RunningState cbs c w)
    show ?thesis
    proof (cases "is_finished h w")
      case False
      with Suc RunningState show ?thesis
        by (auto split: if_splits dest: keeps_Future__cancel)
    next
      case True
      obtain r1 h2 where a: "Future_remove_callback h w (ExecuteCoroutineStep t) = (r1, h2)"
        by (cases "Future_remove_callback h w (ExecuteCoroutineStep t)")
      then have k1: "keeps h h2" by (rule keeps_remove_callback)
      obtain e h3 where b: "coerce_cancel_arg h2 x = (e, h3)"
        by (cases "coerce_cancel_arg h2 x")
      then have k2: "keeps h2 h3" by (auto dest: objs_coerce intro: keeps_objs)
      obtain hnd h4 where c: "call_soon h3 (ExecuteCoroutineStep t) [ArgNone, ArgExc e] = (hnd, h4)"
        by (cases "call_soon h3 (ExecuteCoroutineStep t) [ArgNone, ArgExc e]")
      then have k3: "keeps h3 h4" by (rule keeps_call_soon)
      from Suc.prems RunningState True a b c show ?thesis
        using k1 keeps_trans [OF keeps_trans [OF k1 k2] k3]
        by (auto split: sum.splits)
    qed
  next
    case (ScheduledState cbs c hnd)
    with Suc.prems show ?thesis
      by (auto simp: keeps_refl split: if_splits
          dest!: keeps_Future__cancel intro: keeps_trans [OF keeps_handle_cancel])
  qed (use Suc.prems in \<open>auto simp: keeps_refl dest: keeps_Future__cancel\<close>)
qed

lemma keeps_Task_cancel: "Task_cancel n h t x = Some (r, h1) \<Longrightarrow> keeps h h1"
  by (auto simp: Task_cancel_def Let_def keeps_refl dest: keeps_Task__cancel split: if_splits)

lemma keeps_schedule_first_step: "Task__schedule_first_step h t = (r, h1) \<Longrightarrow> keeps h h1"
  by (auto simp: Task__schedule_first_step_def keeps_refl call_soon_def keeps_def outcome_def
        state_set_state
      split: state.splits if_splits)

lemma keeps_await_resumed: "Future_await_resumed h a = (r, h1) \<Longrightarrow> keeps h h1"
  by (auto simp: Future_await_resumed_def keeps_refl dest: keeps_Future_result split: if_splits)

lemma keeps_await: "Future_await h a = (r, h1) \<Longrightarrow> keeps h h1"
  by (auto simp: Future_await_def keeps_refl dest: keeps_await_resumed
      split: prod.splits if_splits)

lemma keeps_run: "run c h = (r, h1) \<Longrightarrow> keeps h h1"
proof (induction c arbitrary: h r h1)
  case (Await f k)
  obtain o1 h2 where a: "Future_await h f = (o1, h2)"
    by (cases "Future_await h f")
  then have k1: "keeps h h2" by (rule keeps_await)
  show ?case
  proof (cases o1)
    case None
    with a k1 Await.prems show ?thesis by simp
  next
    case (Some r2)
    with a Await.prems have "run (k r2) h2 = (r, h1)" by simp
    then have "keeps h2 h1"
      by (rule Await.IH [rotated]) simp
    with k1 show ?thesis by (rule keeps_trans)
  qed
qed (auto simp: keeps_refl)

lemma keeps_suspend_or_close:
  "suspend_or_close (rn, h1) = (s, c, h2) \<Longrightarrow> h2 = h1"
  by (auto simp: suspend_or_close_def split: ran.splits sum.splits)

lemma keeps_suspend_run: "suspend_or_close (run c h) = (s, c1, h1) \<Longrightarrow> keeps h h1"
  by (cases "run c h") (auto dest: keeps_suspend_or_close keeps_run)

lemma keeps_coroutine_send: "coroutine_send h c = (s, c1, h1) \<Longrightarrow> keeps h h1"
  by (auto simp: coroutine_send_def keeps_refl
      split: coro_state.splits coro.splits prod.splits
      dest!: keeps_suspend_run keeps_await_resumed keeps_suspend_or_close intro: keeps_trans)

lemma keeps_coroutine_throw: "coroutine_throw h c e = (s, c1, h1) \<Longrightarrow> keeps h h1"
  by (auto simp: coroutine_throw_def keeps_refl
      split: coro_state.splits coro.splits prod.splits
      dest!: keeps_suspend_run keeps_suspend_or_close intro: keeps_trans)

lemma keeps_set_coroutine: "keeps h (set_state h t (with_coroutine (state (objs h t)) c))"
  by (rule keeps_set_state) (simp add: state_outcome_with_coroutine)

lemma keeps_send:
  "Task__send_to_coroutine_within_new_context h t ic = (s, h1) \<Longrightarrow> keeps h h1"
  by (auto simp: Task__send_to_coroutine_within_new_context_def keeps_refl
      split: state.splits option.splits prod.splits if_splits
      dest!: keeps_coroutine_send keeps_coroutine_throw
      intro: keeps_trans [OF _ keeps_set_coroutine])

lemma keeps_unsubscribe: "keeps h (unsubscribe_if_running h t)"
  by (auto simp: unsubscribe_if_running_def keeps_refl split: state.splits
      intro: keeps_remove_callback [OF surjective_pairing])

lemma keeps_step: "Task__execute_coroutine_step h t ic = (r, h1) \<Longrightarrow> keeps h h1"
proof -
  assume eq: "Task__execute_coroutine_step h t ic = (r, h1)"
  obtain s h2 where snd: "Task__send_to_coroutine_within_new_context h t ic = (s, h2)"
    by (cases "Task__send_to_coroutine_within_new_context h t ic")
  then have k1: "keeps h h2" by (rule keeps_send)
  have fin: "keeps h (unsubscribe_if_running h3 t)" if "Task__set_result h2 t v e = (r3, h3)" for v e r3 h3
    using keeps_trans [OF keeps_trans [OF k1 keeps_Task__set_result [OF that]] keeps_unsubscribe] .
  have k2: "keeps h (unsubscribe_if_running h2 t)"
    using keeps_trans [OF k1 keeps_unsubscribe] .
  have k3: "keeps h h4" if "Future_add_callback (unsubscribe_if_running h2 t) f cb = (r4, h4)" for f cb r4 h4
    using keeps_trans [OF k2 keeps_add_callback [OF that]] .
  have k4: "keeps h (set_state h4 t (RunningState cbs c f))"
    if "Future_add_callback (unsubscribe_if_running h2 t) f cb = (r4, h4)"
      "state_coroutine (state (objs h4 t)) = Some c" for f cb r4 h4 cbs c
  proof -
    from that(2) have "state_outcome (state (objs h4 t)) = None"
      by (cases "state (objs h4 t)") simp_all
    then show ?thesis
      using keeps_trans [OF k3 [OF that(1)] keeps_set_state] by blast
  qed
  from eq snd show ?thesis
    using fin k2 k3 k4
    by (auto simp: Task__execute_coroutine_step_def Let_def keeps_refl
        split: if_splits sent.splits prod.splits sum.splits option.splits)
qed

lemma keeps_call: "call h cb args = (r, h1) \<Longrightarrow> keeps h h1"
  by (induction h cb args rule: call.induct) (auto simp: keeps_refl dest: keeps_step)

lemma keeps_loop: "loop_call_last_enqueued n h = Some (r, h1) \<Longrightarrow> keeps h h1"
proof (induction n arbitrary: h r h1)
  case 0
  then show ?case by (auto simp: keeps_refl split: list.splits)
next
  case (Suc n)
  show ?case
  proof (cases "ready h")
    case Nil
    with Suc.prems show ?thesis by (simp add: keeps_refl)
  next
    case (Cons x rest)
    obtain target args where x: "x = (target, args)" by (cases x)
    obtain r2 h2 where c: "call (h\<lparr>ready := rest\<rparr>) target args = (r2, h2)"
      by (cases "call (h\<lparr>ready := rest\<rparr>) target args")
    then have "keeps (h\<lparr>ready := rest\<rparr>) h2" by (rule keeps_call)
    then have k: "keeps h h2"
      by (rule keeps_trans [rotated]) (simp add: keeps_objs)
    from Suc.prems Cons x c show ?thesis
      using k Suc.IH [of h2 r h1]
      by (auto split: sum.splits intro: keeps_trans)
  qed
qed

lemma keeps_perform: "perform n act h = Some h1 \<Longrightarrow> keeps h h1"
proof (cases act)
  case (TaskCancel t x)
  assume "perform n act h = Some h1"
  with TaskCancel show ?thesis by (auto dest: keeps_Task_cancel)
next
  case RunLoop
  assume "perform n act h = Some h1"
  with RunLoop show ?thesis
    by (auto simp del: loop_call_last_enqueued.simps dest: keeps_loop)
qed (auto simp: FuturePromise_set_result_def FuturePromise_set_exception_def
      FuturePromise_cancel_def keeps_refl
    intro: keeps_add_callback [OF prod.collapse [symmetric]]
      keeps_remove_callback [OF prod.collapse [symmetric]]
      keeps_Future_result [OF prod.collapse [symmetric]]
      keeps_Future_exception [OF prod.collapse [symmetric]]
      keeps_set_result_of [OF prod.collapse [symmetric]]
      keeps_Future__cancel [OF prod.collapse [symmetric]]
      keeps_schedule_first_step [OF prod.collapse [symmetric]]
      keeps_call [OF prod.collapse [symmetric]])

lemma keeps'_refl: "keeps' h h"
  by (simp add: keeps'_def)

lemma keeps'_trans: "keeps' h h1 \<Longrightarrow> keeps' h1 h2 \<Longrightarrow> keeps' h h2"
  by (simp add: keeps'_def)

lemma keeps'_objs: "objs h1 = objs h \<Longrightarrow> keeps' h h1"
  by (simp add: keeps'_def outcome'_def is_finished'_def)

lemma keeps'_upd:
  "is_finished' h a \<noteq> Inr True \<or>
   (state' (f (objs h a)) = state' (objs h a) \<and> value' (f (objs h a)) = value' (objs h a) \<and>
    exc' (f (objs h a)) = exc' (objs h a))
   \<Longrightarrow> keeps' h (upd h a f)"
  by (auto simp: keeps'_def outcome'_def is_finished'_def upd_def Let_def split: if_splits)

lemma keeps'_schedule_cb: "Future__schedule_cb' h a cb = (r, h1) \<Longrightarrow> keeps' h h1"
  by (auto simp: Future__schedule_cb'_def call_soon_def keeps'_refl keeps'_objs
      split: sum.splits bool.splits)

lemma keeps'_add_callback: "Future_add_callback' h a cb = (r, h1) \<Longrightarrow> keeps' h h1"
  by (auto simp: Future_add_callback'_def keeps'_refl split: if_splits sum.splits bool.splits
      dest: keeps'_schedule_cb intro!: keeps'_upd)

lemma keeps'_remove_callback: "Future_remove_callback' h a cb = (r, h1) \<Longrightarrow> keeps' h h1"
  by (auto simp: Future_remove_callback'_def keeps'_refl split: if_splits intro!: keeps'_upd)

lemma keeps'_schedule_each: "schedule_each' h a cbs = (r, h1) \<Longrightarrow> keeps' h h1"
proof (induction cbs arbitrary: h r h1)
  case Nil
  then show ?case by (simp add: keeps'_refl)
next
  case (Cons cb cbs)
  obtain r2 h2 where s: "Future__schedule_cb' h a cb = (r2, h2)"
    by (cases "Future__schedule_cb' h a cb")
  then have k: "keeps' h h2" by (rule keeps'_schedule_cb)
  from Cons.prems s show ?case
    using k Cons.IH [of h2 r h1]
    by (auto split: sum.splits intro: keeps'_trans)
qed

lemma keeps'_call_cbs: "Future__call_cbs' h a = (r, h1) \<Longrightarrow> keeps' h h1"
  by (auto simp: Future__call_cbs'_def keeps'_refl split: sum.splits bool.splits
      dest: keeps'_schedule_each)

lemma keeps'_Future__set_result: "Future__set_result' h a v e = (r, h1) \<Longrightarrow> keeps' h h1"
proof (cases "is_finished' h a = Inr False")
  case False
  assume "Future__set_result' h a v e = (r, h1)"
  with False show ?thesis
    by (auto simp: Future__set_result'_def keeps'_refl split: sum.splits bool.splits)
next
  case True
  assume "Future__set_result' h a v e = (r, h1)"
  with True have "Future__call_cbs'
      (upd h a (\<lambda>ob. ob\<lparr>state' := finished, value' := v, exc' := e\<rparr>)) a = (r, h1)"
    by (simp add: Future__set_result'_def)
  then have "keeps' (upd h a (\<lambda>ob. ob\<lparr>state' := finished, value' := v, exc' := e\<rparr>)) h1"
    by (rule keeps'_call_cbs)
  moreover from True have "keeps' h (upd h a (\<lambda>ob. ob\<lparr>state' := finished, value' := v, exc' := e\<rparr>))"
    by (intro keeps'_upd) simp
  ultimately show ?thesis
    by (rule keeps'_trans [rotated])
qed

lemma keeps'_Task__set_result: "Task__set_result' h a v e = (r, h1) \<Longrightarrow> keeps' h h1"
proof -
  assume eq: "Task__set_result' h a v e = (r, h1)"
  obtain r2 h2 where s: "Future__set_result' h a v e = (r2, h2)"
    by (cases "Future__set_result' h a v e")
  then have k: "keeps' h h2" by (rule keeps'_Future__set_result)
  from eq s show ?thesis
    using k
    by (auto simp: Task__set_result'_def split: sum.splits bool.splits
        dest!: keeps'_Future__set_result intro: keeps'_trans)
qed

lemma keeps'_set_result_of: "set_result_of' h a v e = (r, h1) \<Longrightarrow> keeps' h h1"
  by (auto simp: set_result_of'_def dest: keeps'_Task__set_result keeps'_Future__set_result
      split: if_splits)

lemma keeps'_Future__cancel: "Future__cancel' h a msg = (r, h1) \<Longrightarrow> keeps' h h1"
proof -
  assume "Future__cancel' h a msg = (r, h1)"
  then have "keeps' (h\<lparr>next_id := Suc (next_id h)\<rparr>) h1"
    by (auto simp: Future__cancel'_def dest: keeps'_set_result_of)
  moreover have "keeps' h (h\<lparr>next_id := Suc (next_id h)\<rparr>)"
    by (simp add: keeps'_objs)
  ultimately show ?thesis
    by (rule keeps'_trans [rotated])
qed

lemma keeps'_Task__cancel: "Task__cancel' n h t msg = Some (r, h1) \<Longrightarrow> keeps' h h1"
proof (induction n arbitrary: h t r h1)
  case 0
  then show ?case by simp
next
  case (Suc n)
  show ?case
  proof (cases "is_finished' h t = Inr False")
    case False
    with Suc.prems show ?thesis
      by (auto simp: keeps'_refl split: sum.splits bool.splits)
  next
    case True
    then have k: "keeps' h (upd h t (\<lambda>ob. ob\<lparr>state' := finishing\<rparr>))"
      by (intro keeps'_upd) simp
    from Suc.prems True show ?thesis
      using k Suc.IH
      by (auto simp: Let_def split: option.splits if_splits
          dest!: keeps'_Future__cancel intro: keeps'_trans)
  qed
qed

lemma keeps'_schedule_execution: "Task__schedule_execution' h t = (r, h1) \<Longrightarrow> keeps' h h1"
proof -
  have "keeps' h (snd (call_soon h cb args))" for cb args
    by (simp add: call_soon_def keeps'_objs)
  moreover have "keeps' h2 (upd h2 t (\<lambda>ob. ob\<lparr>state' := scheduled\<rparr>))"
    if "state' (objs h2 t) = created" for h2
    using that by (intro keeps'_upd) (auto simp: is_finished'_def Let_def)
  moreover assume "Task__schedule_execution' h t = (r, h1)"
  ultimately show ?thesis
    by (auto simp: Task__schedule_execution'_def Let_def split: if_splits intro: keeps'_trans)
qed

lemma keeps'_step: "Task__execute_coroutine_step' h t = (r, h1) \<Longrightarrow> keeps' h h1"
proof -
  assume eq: "Task__execute_coroutine_step' h t = (r, h1)"
  obtain s c1 where snd: "coroutine_send' h (coroutine' (objs h t)) = (s, c1)"
    by (cases "coroutine_send' h (coroutine' (objs h t))")
  define h2 where "h2 = upd h t (\<lambda>ob. ob\<lparr>coroutine' := c1\<rparr>)"
  have k1: "keeps' h h2"
    unfolding h2_def by (intro keeps'_upd) simp
  have k2: "keeps' h h3" if "Task__set_result' h2 t v e = (r3, h3)" for v e r3 h3
    using keeps'_trans [OF k1 keeps'_Task__set_result [OF that]] .
  show ?thesis
  proof (cases s)
    case (StopIteration v)
    with eq snd show ?thesis
      by (auto simp: Task__execute_coroutine_step'_def Let_def h2_def [symmetric] dest: k2)
  next
    case (Raised e)
    with eq snd show ?thesis
      by (auto simp: Task__execute_coroutine_step'_def Let_def h2_def [symmetric] dest: k2)
  next
    case (Yielded f)
    obtain rA hA where A: "(if state' (objs h2 t) = scheduled
         then Future__set_result' (upd h2 t (\<lambda>ob. ob\<lparr>state' := running\<rparr>))
                (started_promise' (objs h2 t)) (Some NoneVal) None
         else (Inr (), h2)) = (rA, hA)"
      by (cases "(if state' (objs h2 t) = scheduled
         then Future__set_result' (upd h2 t (\<lambda>ob. ob\<lparr>state' := running\<rparr>))
                (started_promise' (objs h2 t)) (Some NoneVal) None
         else (Inr (), h2))")
    have k3: "keeps' h2 (upd h2 t (\<lambda>ob. ob\<lparr>state' := running\<rparr>))" if "state' (objs h2 t) = scheduled"
      using that by (intro keeps'_upd) (auto simp: is_finished'_def Let_def)
    from A have "keeps' h2 hA"
      using k3 by (auto simp: keeps'_refl split: if_splits
          dest!: keeps'_Future__set_result intro: keeps'_trans)
    with k1 have kA: "keeps' h hA" by (rule keeps'_trans)
    obtain rB hB where B: "(case waiting_on' (objs hA t) of
           Some w \<Rightarrow> Future_remove_callback' hA w (ScheduleExecution t)
         | None \<Rightarrow> (Inr (), hA)) = (rB, hB)"
      by (cases "(case waiting_on' (objs hA t) of
           Some w \<Rightarrow> Future_remove_callback' hA w (ScheduleExecution t)
         | None \<Rightarrow> (Inr (), hA))")
    then have "keeps' hA hB"
      by (auto simp: keeps'_refl split: option.splits dest: keeps'_remove_callback)
    with kA have kB: "keeps' h hB" by (rule keeps'_trans)
    obtain rC hC where C: "Future_add_callback' hB f (ScheduleExecution t) = (rC, hC)"
      by (cases "Future_add_callback' hB f (ScheduleExecution t)")
    then have "keeps' hB hC" by (rule keeps'_add_callback)
    with kB have kC: "keeps' h hC" by (rule keeps'_trans)
    have "keeps' hC (upd hC t (\<lambda>ob. ob\<lparr>waiting_on' := Some f\<rparr>))"
      by (intro keeps'_upd) simp
    with kC have kD: "keeps' h (upd hC t (\<lambda>ob. ob\<lparr>waiting_on' := Some f\<rparr>))"
      by (rule keeps'_trans)
    from eq snd Yielded A B C
    have "h1 = hA \<or> h1 = hB \<or> h1 = hC \<or> h1 = upd hC t (\<lambda>ob. ob\<lparr>waiting_on' := Some f\<rparr>)"
      by (auto simp: Task__execute_coroutine_step'_def Let_def h2_def [symmetric]
          split: sum.splits if_splits)
    with kA kB kC kD show ?thesis by blast
  qed
qed

lemma keeps'_future_done_cb: "future_done_cb h fut p = (r, h1) \<Longrightarrow> keeps' h h1"
  by (auto simp: future_done_cb_def FuturePromise_set_exception'_def FuturePromise_set_result'_def
        keeps'_refl Let_def
      split: sum.splits bool.splits option.splits if_splits dest: keeps'_set_result_of)

lemma keeps'_call: "call' h cb args = (r, h1) \<Longrightarrow> keeps' h h1"
  by (induction h cb args rule: call'.induct)
    (auto simp: keeps'_refl dest: keeps'_step keeps'_schedule_execution keeps'_future_done_cb)

lemma keeps'_loop: "loop_call_last_enqueued' n h = Some (r, h1) \<Longrightarrow> keeps' h h1"
proof (induction n arbitrary: h r h1)
  case 0
  then show ?case by (auto simp: keeps'_refl split: list.splits)
next
  case (Suc n)
  show ?case
  proof (cases "ready h")
    case Nil
    with Suc.prems show ?thesis by (simp add: keeps'_refl)
  next
    case (Cons x rest)
    obtain target args where x: "x = (target, args)" by (cases x)
    obtain r2 h2 where c: "call' (h\<lparr>ready := rest\<rparr>) target args = (r2, h2)"
      by (cases "call' (h\<lparr>ready := rest\<rparr>) target args")
    then have "keeps' (h\<lparr>ready := rest\<rparr>) h2" by (rule keeps'_call)
    then have k: "keeps' h h2"
      by (rule keeps'_trans [rotated]) (simp add: keeps'_objs)
    from Suc.prems Cons x c show ?thesis
      using k Suc.IH [of h2 r h1]
      by (auto split: sum.splits intro: keeps'_trans)
  qed
qed

lemma keeps'_cancel_each: "cancel_each n h ts msg = Some (r, h1) \<Longrightarrow> keeps' h h1"
proof (induction ts arbitrary: h r h1)
  case Nil
  then show ?case by (simp add: keeps'_refl)
next
  case (Cons t ts)
  then show ?case
    by (auto split: option.splits sum.splits prod.splits
        dest!: keeps'_Task__cancel intro: keeps'_trans)
qed

lemma keeps'_perform: "perform' n act h = Some h1 \<Longrightarrow> keeps' h h1"
proof (cases act)
  case (TaskCancel' t x)
  assume "perform' n act h = Some h1"
  with TaskCancel' show ?thesis by (auto dest: keeps'_Task__cancel)
next
  case RunLoop'
  assume "perform' n act h = Some h1"
  with RunLoop' show ?thesis
    by (auto simp del: loop_call_last_enqueued'.simps dest: keeps'_loop)
next
  case (GroupCancel ts msg)
  assume "perform' n act h = Some h1"
  with GroupCancel show ?thesis by (auto simp: TaskGroup_cancel_def dest: keeps'_cancel_each)
qed (auto simp: FuturePromise_set_result'_def FuturePromise_set_exception'_def
      FuturePromise_cancel'_def keeps'_refl
    intro: keeps'_add_callback [OF prod.collapse [symmetric]]
      keeps'_remove_callback [OF prod.collapse [symmetric]]
      keeps'_set_result_of [OF prod.collapse [symmetric]]
      keeps'_Future__cancel [OF prod.collapse [symmetric]]
      keeps'_schedule_execution [OF prod.collapse [symmetric]]
      keeps'_call [OF prod.collapse [symmetric]])

lemma is_finished_outcome: "is_finished h a \<longleftrightarrow> outcome h a \<noteq> None"
  by (cases "state (objs h a)") (simp_all add: is_finished_def outcome_def)

lemma finished_set_result_of:
  "is_finished h a \<Longrightarrow> v \<noteq> None \<and> e = None \<or> v = None \<and> e \<noteq> None \<Longrightarrow>
   set_result_of h a v e = (Inl FutureFinishedError, h)"
  by (cases "state (objs h a)")
    (auto simp: set_result_of_def Task__set_result_def Future__set_result_def is_finished_def)

lemma finished_set_result_of':
  "is_finished' h a = Inr True \<Longrightarrow> set_result_of' h a v e = (Inl FutureFinishedError, h)"
  by (simp add: set_result_of'_def Task__set_result'_def Future__set_result'_def)

text \<open>
  C4, as stated, fails: \<open>set_exception\<close> with a \<open>Cancelled\<close> on a finished future
  fails with \<open>TypeError\<close>, not with \<open>FutureFinishedError\<close>.
\<close>

theorem C4_counterexample:
  "is_finished success_heap 0 \<and>
   FuturePromise_set_exception success_heap 0 (Cancelled 5 None True) = (Inl TypeError, success_heap)"
  by (simp add: pure_defs)

text \<open>
  C4, amended. The only changes of what a future holds are from not finished to
  finished with a value, or to finished with an exception: whatever operation is made
  on a heap, each future that was finished before holds the same value or exception
  after it. On a finished future \<open>set_result\<close>, \<open>set_exception\<close> and \<open>cancel\<close> of its
  promise and \<open>cancel\<close> of a task fail with \<open>FutureFinishedError\<close> and leave every
  object and the loop as they were (\<open>cancel\<close> may have made the \<open>Cancelled\<close> instance it
  then drops); but \<open>set_exception\<close> with a \<open>Cancelled\<close> fails with \<open>TypeError\<close>
  (\<open>ValueError\<close> in \<open>aio/future.py\<close>), as it does on any future. Both modules.
\<close>

theorem C4_finished_is_final:
  "(is_finished h a \<longleftrightarrow> outcome h a \<noteq> None) \<and>
   (outcome h a = Some res \<and> perform n act h = Some h1 \<longrightarrow> outcome h1 a = Some res) \<and>
   (is_finished h a \<longrightarrow>
      FuturePromise_set_result h a v = (Inl FutureFinishedError, h) \<and>
      FuturePromise_set_exception h a e =
        (Inl (if is_Cancelled e then TypeError else FutureFinishedError), h) \<and>
      FuturePromise_cancel h a x = (Inl FutureFinishedError, snd (coerce_cancel_arg h x)) \<and>
      objs (snd (coerce_cancel_arg h x)) = objs h \<and>
      ready (snd (coerce_cancel_arg h x)) = ready h \<and>
      Task_cancel (Suc n) h a x = Some (Inl FutureFinishedError, h)) \<and>
   ((is_finished' h' a = Inr True) \<longleftrightarrow> outcome' h' a \<noteq> None) \<and>
   (outcome' h' a = Some res' \<and> perform' n act' h' = Some h1' \<longrightarrow> outcome' h1' a = Some res') \<and>
   (is_finished' h' a = Inr True \<longrightarrow>
      FuturePromise_set_result' h' a v = (Inl FutureFinishedError, h') \<and>
      FuturePromise_set_exception' h' a e =
        (Inl (if is_Cancelled e then ValueError else FutureFinishedError), h') \<and>
      FuturePromise_cancel' h' a msg =
        (Inl FutureFinishedError, h'\<lparr>next_id := Suc (next_id h')\<rparr>) \<and>
      Task__cancel' (Suc n) h' a msg = Some (Inl FutureFinishedError, h'))"
proof (intro conjI impI)
  show "is_finished h a \<longleftrightarrow> outcome h a \<noteq> None"
    by (rule is_finished_outcome)
  show "outcome h1 a = Some res" if "outcome h a = Some res \<and> perform n act h = Some h1"
    using that keeps_perform [of n act h h1] by (simp add: keeps_def)
  show "(is_finished' h' a = Inr True) \<longleftrightarrow> outcome' h' a \<noteq> None"
    by (simp add: outcome'_def)
  show "outcome' h1' a = Some res'" if "outcome' h' a = Some res' \<and> perform' n act' h' = Some h1'"
    using that keeps'_perform [of n act' h' h1'] unfolding keeps'_def by blast
next
  assume f: "is_finished h a"
  show "FuturePromise_set_result h a v = (Inl FutureFinishedError, h)"
    using f by (simp add: FuturePromise_set_result_def finished_set_result_of)
  show "FuturePromise_set_exception h a e =
      (Inl (if is_Cancelled e then TypeError else FutureFinishedError), h)"
    using f by (simp add: FuturePromise_set_exception_def finished_set_result_of)
  show "objs (snd (coerce_cancel_arg h x)) = objs h"
    by (cases x) (simp_all add: coerce_cancel_arg_def)
  show "ready (snd (coerce_cancel_arg h x)) = ready h"
    by (cases x) (simp_all add: coerce_cancel_arg_def)
  have "is_finished (snd (coerce_cancel_arg h x)) a"
    using f by (cases x) (simp_all add: coerce_cancel_arg_def is_finished_def)
  then show "FuturePromise_cancel h a x = (Inl FutureFinishedError, snd (coerce_cancel_arg h x))"
    by (cases "coerce_cancel_arg h x")
      (simp add: FuturePromise_cancel_def Future__cancel_def finished_set_result_of)
  show "Task_cancel (Suc n) h a x = Some (Inl FutureFinishedError, h)"
    using f by (cases "state (objs h a)") (simp_all add: Task_cancel_def is_finished_def)
next
  assume f: "is_finished' h' a = Inr True"
  show "FuturePromise_set_result' h' a v = (Inl FutureFinishedError, h')"
    using f by (simp add: FuturePromise_set_result'_def finished_set_result_of')
  show "FuturePromise_set_exception' h' a e =
      (Inl (if is_Cancelled e then ValueError else FutureFinishedError), h')"
    using f by (simp add: FuturePromise_set_exception'_def finished_set_result_of')
  have "is_finished' (h'\<lparr>next_id := Suc (next_id h')\<rparr>) a = Inr True"
    using f by (simp add: is_finished'_def)
  then show "FuturePromise_cancel' h' a msg =
      (Inl FutureFinishedError, h'\<lparr>next_id := Suc (next_id h')\<rparr>)"
    by (simp add: FuturePromise_cancel'_def Future__cancel'_def finished_set_result_of')
  show "Task__cancel' (Suc n) h' a msg = Some (Inl FutureFinishedError, h')"
    using f by simp
qed

theorem C4_finished_is_final_witness:
  "is_finished success_heap 0 \<and> outcome success_heap 0 = Some (Inr (Obj 1)) \<and>
   perform 1 (PromiseSetResult 0 (Obj 2)) success_heap = Some success_heap \<and>
   FuturePromise_set_result success_heap 0 (Obj 2) = (Inl FutureFinishedError, success_heap) \<and>
   FuturePromise_set_exception success_heap 0 (UserError 3 True) =
     (Inl FutureFinishedError, success_heap) \<and>
   Task_cancel 2 success_heap 0 NoArg = Some (Inl FutureFinishedError, success_heap) \<and>
   is_finished' success_heap' 0 = Inr True \<and>
   outcome' success_heap' 0 = Some (Some (Obj 1), None) \<and>
   perform' 1 (PromiseSetResult' 0 (Obj 2)) success_heap' = Some success_heap' \<and>
   FuturePromise_set_result' success_heap' 0 (Obj 2) = (Inl FutureFinishedError, success_heap') \<and>
   Task__cancel' 2 success_heap' 0 None = Some (Inl FutureFinishedError, success_heap')"
proof -
  have f: "is_finished success_heap 0"
    by (simp add: pure_defs)
  have o: "outcome success_heap 0 = Some (Inr (Obj 1))"
    by (simp add: outcome_def pure_defs)
  have f': "is_finished' success_heap' 0 = Inr True"
    by (simp add: fut_defs')
  have o': "outcome' success_heap' 0 = Some (Some (Obj 1), None)"
    by (simp add: outcome'_def f') (simp add: fut_defs')
  note t = C4_finished_is_final [of success_heap 0 "Inr (Obj 1)" 1 "PromiseSetResult 0 (Obj 2)"
      success_heap "Obj 2" "UserError 3 True" NoArg success_heap' "(Some (Obj 1), None)"
      "PromiseSetResult' 0 (Obj 2)" success_heap' None]
  from t f f' have p: "perform 1 (PromiseSetResult 0 (Obj 2)) success_heap = Some success_heap"
    "perform' 1 (PromiseSetResult' 0 (Obj 2)) success_heap' = Some success_heap'"
    by simp_all
  from t f o f' o' p show ?thesis
    by (simp add: eval_nat_numeral)
qed

subsection \<open>The started promise\<close>




lemma marks_trans: "marks h h1 \<Longrightarrow> marks h1 h2 \<Longrightarrow> marks h h2"
  by (simp add: marks_def same_shape_def)



























lemma set_iteration [simp]: "set (iteration h cbs) = set cbs"
  by (simp add: iteration_def)

lemma iteration_cong [simp]:
  "iteration (h\<lparr>objs := x\<rparr>) cbs = iteration h cbs"
  "iteration (h\<lparr>ready := y\<rparr>) cbs = iteration h cbs"
  "iteration (h\<lparr>next_id := z\<rparr>) cbs = iteration h cbs"
  by (simp_all add: iteration_def)










subsection \<open>Cancelling a task that awaits a pending future\<close>



lemma is_task_set_state: "is_task (objs (set_state h a st) b) = is_task (objs h b)"
  by (simp add: set_state_def)



lemma loop_empty: "ready h = [] \<Longrightarrow> loop_call_last_enqueued n h = Some (Inr (), h)"
  by simp








end
